theory Spec2Isabelle
  imports Complex_Main "HOL-Library.Sublist"
begin

section \<open>Strings\<close>

text \<open>
  A Python \<^verbatim>\<open>str\<close> is a sequence of Unicode code points: \<^verbatim>\<open>len\<close>, slicing,
  \<^verbatim>\<open>strip\<close> and the regular expressions of the program all count code points. A string
  is therefore a list of code points, and an ASCII literal of the source is written
  \<open>lit ''...''\<close>.
\<close>

type_synonym ustr = "nat list"

definition lit :: "string \<Rightarrow> ustr" where
  "lit s = map of_char s"

text \<open>
  The white space of \<^verbatim>\<open>str.strip()\<close> and of \<^verbatim>\<open>\s\<close> in a \<^verbatim>\<open>str\<close> pattern.
\<close>

definition isspace :: "nat \<Rightarrow> bool" where
  "isspace c \<longleftrightarrow>
     (9 \<le> c \<and> c \<le> 13) \<or> (28 \<le> c \<and> c \<le> 32) \<or> c = 133 \<or> c = 160 \<or> c = 5760 \<or>
     (8192 \<le> c \<and> c \<le> 8202) \<or> c = 8232 \<or> c = 8233 \<or> c = 8239 \<or> c = 8287 \<or> c = 12288"

definition newline :: nat where
  "newline = 10"

definition lstrip :: "ustr \<Rightarrow> ustr" where
  "lstrip s = dropWhile isspace s"

definition rstrip :: "ustr \<Rightarrow> ustr" where
  "rstrip s = rev (dropWhile isspace (rev s))"

definition strip :: "ustr \<Rightarrow> ustr" where
  "strip s = rstrip (lstrip s)"

text \<open>\<^verbatim>\<open>xs[i:j]\<close> for \<open>0 \<le> i\<close> and \<open>0 \<le> j\<close>.\<close>

definition slice :: "'a list \<Rightarrow> nat \<Rightarrow> nat \<Rightarrow> 'a list" where
  "slice xs i j = take (j - i) (drop i xs)"

text \<open>\<^verbatim>\<open>sep.join(xs)\<close>.\<close>

fun join :: "ustr \<Rightarrow> ustr list \<Rightarrow> ustr" where
  "join sep [] = []"
| "join sep [x] = x"
| "join sep (x # y # ys) = x @ sep @ join sep (y # ys)"

text \<open>\<^verbatim>\<open>str(i)\<close> for a non-negative integer.\<close>

function str_nat :: "nat \<Rightarrow> ustr" where
  "str_nat n = (if n < 10 then [48 + n] else str_nat (n div 10) @ [48 + n mod 10])"
  by pat_completeness auto
termination
  by (relation "measure id") auto

declare str_nat.simps [simp del]

definition digit :: "nat \<Rightarrow> bool" where
  "digit c \<longleftrightarrow> 48 \<le> c \<and> c \<le> 57"

text \<open>
  \<^verbatim>\<open>s.replace(old, new)\<close>: the occurrences of \<open>old\<close> are found from left to right and do
  not overlap; an empty \<open>old\<close> matches before every character and at the end.
\<close>

fun replace_scan :: "ustr \<Rightarrow> ustr \<Rightarrow> ustr \<Rightarrow> ustr" where
  "replace_scan old new [] = []"
| "replace_scan old new (c # cs) =
     (if prefix old (c # cs) then new @ replace_scan old new (drop (length old - 1) cs)
      else c # replace_scan old new cs)"

definition py_replace :: "ustr \<Rightarrow> ustr \<Rightarrow> ustr \<Rightarrow> ustr" where
  "py_replace s old new =
     (if old = [] then new @ concat (map (\<lambda>c. c # new) s) else replace_scan old new s)"

text \<open>
  \<^verbatim>\<open>s.count(sub)\<close>: the number of occurrences that do not overlap; an empty \<open>sub\<close> is
  found \<open>len(s) + 1\<close> times.
\<close>

fun count_scan :: "ustr \<Rightarrow> ustr \<Rightarrow> nat" where
  "count_scan sub [] = 0"
| "count_scan sub (c # cs) =
     (if prefix sub (c # cs) then Suc (count_scan sub (drop (length sub - 1) cs))
      else count_scan sub cs)"

definition py_count :: "ustr \<Rightarrow> ustr \<Rightarrow> nat" where
  "py_count s sub = (if sub = [] then Suc (length s) else count_scan sub s)"

text \<open>\<^verbatim>\<open>s.find(c)\<close> and \<^verbatim>\<open>s.rfind(c)\<close> for a single character; \<open>None\<close> is \<open>-1\<close>.\<close>

fun py_find :: "ustr \<Rightarrow> nat \<Rightarrow> nat option" where
  "py_find [] c = None"
| "py_find (x # xs) c = (if x = c then Some 0 else map_option Suc (py_find xs c))"

definition py_rfind :: "ustr \<Rightarrow> nat \<Rightarrow> nat option" where
  "py_rfind s c = map_option (\<lambda>j. length s - 1 - j) (py_find (rev s) c)"

section \<open>Configuration\<close>

definition FINAL_DOCS :: nat where
  "FINAL_DOCS = 6"

definition RERANK_THRESHOLD :: real where
  "RERANK_THRESHOLD = 20 / 100"

definition CONTACT_EMAIL :: ustr where
  "CONTACT_EMAIL = lit ''hello@agent42labs.com''"

definition CONTACT_PHONE :: ustr where
  "CONTACT_PHONE = lit ''+91 7027119799''"

definition CONTACT_URL :: ustr where
  "CONTACT_URL = lit ''https://agent42labs.com/contact-us''"

definition PAGES_TTL_SEC :: real where
  "PAGES_TTL_SEC = 86400"

definition ANSWER_TTL_SEC :: real where
  "ANSWER_TTL_SEC = 43200"

definition ALLOWED_TAGS :: "ustr list" where
  "ALLOWED_TAGS = map lit
     [''article'', ''section'', ''header'', ''footer'', ''nav'',
      ''h1'', ''h2'', ''h3'', ''h4'', ''p'', ''ul'', ''ol'', ''li'',
      ''a'', ''img'', ''figure'', ''figcaption'', ''blockquote'',
      ''code'', ''pre'', ''em'', ''strong'', ''hr'', ''br'', ''div'', ''span'',
      ''table'', ''thead'', ''tbody'', ''tr'', ''th'', ''td'', ''sup'']"

definition ALLOWED_ATTRS :: "(ustr \<times> ustr list) list" where
  "ALLOWED_ATTRS =
     [(lit ''a'', map lit [''href'', ''title'', ''target'', ''rel'']),
      (lit ''img'', map lit [''src'', ''alt'', ''width'', ''height'', ''loading'', ''decoding'',
                             ''sizes'', ''srcset'']),
      (lit ''*'', map lit [''class'', ''id'', ''data-*''])]"

definition TTL :: real where
  "TTL = 300"

section \<open>Data model\<close>

text \<open>A chunk of a fetched document; \<open>post_id\<close> is \<open>None\<close> when the item has no id.\<close>

record doc =
  post_id :: "int option"
  doc_title :: ustr
  doc_url :: ustr
  text_chunk :: ustr

record image =
  img_id :: ustr
  img_url :: ustr
  img_title :: ustr
  img_alt :: ustr
  img_caption :: ustr
  img_width :: "nat option"
  img_height :: "nat option"
  img_srcset :: ustr
  img_sizes :: ustr
  img_score :: "nat option"

record source =
  src_title :: ustr
  src_url :: ustr
  src_text :: ustr

record citation =
  cit_title :: ustr
  cit_url :: ustr

record plan_section =
  sec_id :: ustr
  heading :: ustr
  paragraphs :: "ustr list"
  bullets :: "ustr list"

record plan =
  plan_title :: ustr
  summary :: ustr
  show_toc :: bool
  sections :: "plan_section list"

record page =
  page_title :: ustr
  html :: ustr
  page_ts :: real

record answer =
  page_id :: ustr
  answer_ts :: real

record doc_cache =
  ts :: real
  docs :: "doc list"

record media_cache =
  media_ts :: real
  imgs :: "image list"

text \<open>
  The stages of the pipeline that a call enters, in order: a record kept beside the
  program's state, which the program itself does not read.
\<close>

datatype event = SearchDocs | Bm25Rank | CoRerank | PostAttachments | MediaLookup | CoGenerate

text \<open>
  The module's global dictionaries. \<open>PAGES\<close> maps a page id to the stored page,
  \<open>ANSWER_CACHE\<close> a cache key to the memo entry.
\<close>

record state =
  POSTS_CACHE :: doc_cache
  PAGES_CACHE :: doc_cache
  MEDIA_CACHE :: media_cache
  PAGES :: "ustr \<rightharpoonup> page"
  ANSWER_CACHE :: "ustr \<rightharpoonup> answer"
  LOG :: "event list"

definition initial_state :: state where
  "initial_state =
     \<lparr>POSTS_CACHE = \<lparr>ts = 0, docs = []\<rparr>, PAGES_CACHE = \<lparr>ts = 0, docs = []\<rparr>,
      MEDIA_CACHE = \<lparr>media_ts = 0, imgs = []\<rparr>, PAGES = Map.empty, ANSWER_CACHE = Map.empty,
      LOG = []\<rparr>"

definition log_event :: "event \<Rightarrow> state \<Rightarrow> state" where
  "log_event e s = s\<lparr>LOG := LOG s @ [e]\<rparr>"

subsection \<open>Library functions\<close>

text \<open>
  The pure functions of the libraries the program imports (\<^verbatim>\<open>hashlib\<close>, \<^verbatim>\<open>bleach\<close>,
  \<^verbatim>\<open>slugify\<close>, \<^verbatim>\<open>werkzeug\<close>, \<^verbatim>\<open>json\<close>, \<^verbatim>\<open>rank_bm25\<close>) and the case mappings of
  \<^verbatim>\<open>str\<close> are parameters of the model. \<open>sha256_hexdigest t\<close> is
  \<^verbatim>\<open>hashlib.sha256(t.encode("utf-8")).hexdigest()\<close>; \<open>json_loads\<close> is \<open>None\<close> where
  \<^verbatim>\<open>json.loads\<close> raises; \<open>bm25_scores corpus q i\<close> is the score
  \<^verbatim>\<open>BM25Okapi(corpus).get_scores(q)[i]\<close> of the \<open>i\<close>-th document.
\<close>

record caps =
  sha256_hexdigest :: "ustr \<Rightarrow> ustr"
  bleach_clean :: "ustr \<Rightarrow> ustr list \<Rightarrow> (ustr \<times> ustr list) list \<Rightarrow> ustr"
  slugify :: "ustr \<Rightarrow> ustr"
  secure_filename :: "ustr \<Rightarrow> ustr"
  str_lower :: "ustr \<Rightarrow> ustr"
  str_upper :: "ustr \<Rightarrow> ustr"
  json_loads :: "ustr \<Rightarrow> plan option"
  bm25_scores :: "ustr list list \<Rightarrow> ustr list \<Rightarrow> nat \<Rightarrow> real"

subsection \<open>The outside world\<close>

text \<open>
  An answer of the content source to one \<^verbatim>\<open>http.get\<close>: the request or the decoding of
  its body raises, the source reports an invalid page number (status 400), or a list of
  items arrives.
\<close>

datatype 'a response = Raises | InvalidPage | Json "'a list"

record wp_item =
  item_id :: "int option"
  title_rendered :: ustr
  item_link :: ustr
  content_rendered :: ustr

record wp_media =
  media_id :: nat
  media_type :: ustr
  alt_text :: ustr
  caption_rendered :: ustr
  media_width :: "nat option"
  media_height :: "nat option"
  media_sizes :: "(ustr \<times> nat) list"
  source_url :: ustr
  media_title :: ustr

record rerank_result =
  index :: nat
  relevance_score :: "real option"

datatype rerank_outcome = RerankRaises | RerankResults "rerank_result list"

text \<open>
  What one call of the pipeline reads from outside the program: the clock at each
  \<^verbatim>\<open>time.time()\<close>, the answers of the content source by page number (by parent id for
  attachments), the answers of \<^verbatim>\<open>co.rerank\<close> to the query, the documents and \<^verbatim>\<open>top_n\<close>,
  the text that \<^verbatim>\<open>co.generate\<close> returns for a prompt (\<open>None\<close> when the call raises), and
  the token of \<^verbatim>\<open>secrets.token_urlsafe(10)\<close>.
\<close>

record env =
  t_answers :: real
  t_posts :: real
  http_posts :: "nat \<Rightarrow> wp_item response"
  t_pages :: real
  http_pages :: "nat \<Rightarrow> wp_item response"
  rerank_search :: "ustr \<Rightarrow> ustr list \<Rightarrow> nat \<Rightarrow> rerank_outcome"
  rerank_probe :: "ustr \<Rightarrow> ustr list \<Rightarrow> nat \<Rightarrow> rerank_outcome"
  http_attachments :: "int \<Rightarrow> wp_media response"
  t_media :: real
  http_media :: "nat \<Rightarrow> wp_media response"
  co_generate :: "ustr \<Rightarrow> ustr option"
  t_cleanup_pages :: real
  token_urlsafe :: ustr
  t_save :: real
  t_memo :: real

section \<open>Utility functions\<close>

definition trace_id_for :: "caps \<Rightarrow> ustr \<Rightarrow> ustr" where
  "trace_id_for C text = take 16 (sha256_hexdigest C text)"

definition sanitize_html :: "caps \<Rightarrow> ustr \<Rightarrow> ustr" where
  "sanitize_html C html_str = bleach_clean C html_str ALLOWED_TAGS ALLOWED_ATTRS"

text \<open>
  \<^verbatim>\<open>re.sub(r"<[^>]+>", "", html)\<close>: a match starts at a \<^verbatim>\<open><\<close>, takes the characters up to
  the next \<^verbatim>\<open>>\<close>, at least one, and that \<^verbatim>\<open>>\<close>.
\<close>

function sub_tags :: "ustr \<Rightarrow> ustr" where
  "sub_tags [] = []"
| "sub_tags (c # cs) =
     (if c = 60 \<and> takeWhile (\<lambda>x. x \<noteq> 62) cs \<noteq> [] \<and> dropWhile (\<lambda>x. x \<noteq> 62) cs \<noteq> []
      then sub_tags (tl (dropWhile (\<lambda>x. x \<noteq> 62) cs))
      else c # sub_tags cs)"
  by pat_completeness auto
termination
proof (relation "measure length")
  fix c :: nat and cs :: ustr
  have "length (tl (dropWhile (\<lambda>x. x \<noteq> 62) cs)) \<le> length cs"
    using length_dropWhile_le [of "\<lambda>x. x \<noteq> 62" cs] by simp
  then show "(tl (dropWhile (\<lambda>x. x \<noteq> 62) cs), c # cs) \<in> measure length"
    by simp
qed auto

definition strip_html :: "ustr \<Rightarrow> ustr" where
  "strip_html html_str = strip (sub_tags html_str)"

subsection \<open>\<^verbatim>\<open>chunk_text\<close>\<close>

text \<open>
  \<^verbatim>\<open>re.sub(r"\s+\n", "\n", text)\<close>. At a position the greedy \<^verbatim>\<open>\s+\<close> takes the whole run
  of white space and gives characters back until a newline follows, so the match ends at
  the last newline of the run that is not its first character. Without such a newline
  the character is copied and the scan moves on by one.
\<close>

definition last_nl :: "ustr \<Rightarrow> nat option" where
  "last_nl w = (case filter (\<lambda>j. w ! j = newline) [1..<length w] of
                  [] \<Rightarrow> None | j # js \<Rightarrow> Some (last (j # js)))"

fun sub_ws_nl :: "ustr \<Rightarrow> ustr" where
  "sub_ws_nl [] = []"
| "sub_ws_nl (c # cs) =
     (case last_nl (takeWhile isspace (c # cs)) of
        Some j \<Rightarrow> newline # sub_ws_nl (drop j cs)
      | None \<Rightarrow> c # sub_ws_nl cs)"

text \<open>
  The loop of \<^verbatim>\<open>chunk_text\<close>, from the position \<open>i\<close> with the chunks collected so far.
  The next position is \<^verbatim>\<open>max(end - overlap, end)\<close>. With \<^verbatim>\<open>max_chars = 0\<close> the position
  does not move and the Python loop runs forever: that is the value \<open>None\<close>.
\<close>

function chunk_loop :: "nat \<Rightarrow> nat \<Rightarrow> ustr \<Rightarrow> nat \<Rightarrow> ustr list \<Rightarrow> ustr list option" where
  "chunk_loop max_chars overlap text i chunks =
     (if i < length text then
        (let end = min (i + max_chars) (length text);
             chunk = strip (slice text i end);
             chunks' = (if chunk \<noteq> [] then chunks @ [chunk] else chunks);
             i' = max (end - overlap) end
         in if i' \<le> i then None else chunk_loop max_chars overlap text i' chunks')
      else Some chunks)"
  by pat_completeness auto
termination
  by (relation "measure (\<lambda>(m, ov, text, i, chunks). length text - i)") (auto simp: Let_def)

declare chunk_loop.simps [simp del]

definition chunk_text :: "ustr \<Rightarrow> nat \<Rightarrow> nat \<Rightarrow> ustr list option" where
  "chunk_text text max_chars overlap = chunk_loop max_chars overlap (sub_ws_nl text) 0 []"

subsection \<open>\<^verbatim>\<open>_tok\<close>\<close>

definition lower_alnum :: "nat \<Rightarrow> bool" where
  "lower_alnum c \<longleftrightarrow> (97 \<le> c \<and> c \<le> 122) \<or> (48 \<le> c \<and> c \<le> 57)"

text \<open>\<^verbatim>\<open>re.findall(r"[a-z0-9]+", s)\<close>: the maximal runs, from left to right.\<close>

function alnum_runs :: "ustr \<Rightarrow> ustr list" where
  "alnum_runs [] = []"
| "alnum_runs (c # cs) =
     (if lower_alnum c then (c # takeWhile lower_alnum cs) # alnum_runs (dropWhile lower_alnum cs)
      else alnum_runs cs)"
  by pat_completeness auto
termination
proof (relation "measure length")
  fix c :: nat and cs :: ustr
  show "(dropWhile lower_alnum cs, c # cs) \<in> measure length"
    using length_dropWhile_le [of lower_alnum cs] by simp
qed auto

definition tok :: "caps \<Rightarrow> ustr \<Rightarrow> ustr list" where
  "tok C text = alnum_runs (str_lower C text)"

subsection \<open>\<^verbatim>\<open>linkify_citations\<close>\<close>

definition marker :: "nat \<Rightarrow> ustr" where
  "marker i = lit ''['' @ str_nat i @ lit '']''"

definition cite_anchor :: "nat \<Rightarrow> ustr" where
  "cite_anchor i =
     lit ''<sup class=\"cite\"><a href=\"#src-'' @ str_nat i @ lit ''\">'' @ str_nat i @
     lit ''</a></sup>''"

definition linkify_citations :: "ustr \<Rightarrow> 'c list \<Rightarrow> ustr" where
  "linkify_citations html_str citations =
     (if citations = [] then html_str
      else fold (\<lambda>i out. py_replace out (marker i) (cite_anchor i))
             [1..<Suc (length citations)] html_str)"

text \<open>
  The reading of the citation-linking rule as one pass over the text: where a marker
  \<^verbatim>\<open>[i]\<close> with \<open>1 \<le> i \<le> N\<close> starts, its anchor is written and the scan goes on behind the
  marker; any other character is copied.
\<close>

fun rewrite_markers :: "nat \<Rightarrow> ustr \<Rightarrow> ustr" where
  "rewrite_markers N [] = []"
| "rewrite_markers N (c # cs) =
     (case find (\<lambda>i. prefix (marker i) (c # cs)) [1..<Suc N] of
        Some i \<Rightarrow> cite_anchor i @ rewrite_markers N (drop (length (marker i) - 1) cs)
      | None \<Rightarrow> c # rewrite_markers N cs)"

subsection \<open>\<^verbatim>\<open>dedupe_citations\<close>\<close>

fun dedupe_loop :: "caps \<Rightarrow> ustr list \<Rightarrow> citation list \<Rightarrow> citation list" where
  "dedupe_loop C seen [] = []"
| "dedupe_loop C seen (c # cs) =
     (let key = str_lower C (strip (if cit_url c \<noteq> [] then cit_url c else cit_title c))
      in if key = [] \<or> key \<in> set seen then dedupe_loop C seen cs
         else c # dedupe_loop C (key # seen) cs)"

definition dedupe_citations :: "caps \<Rightarrow> citation list \<Rightarrow> citation list" where
  "dedupe_citations C items = dedupe_loop C [] items"

subsection \<open>Page store and answer cache\<close>

definition cleanup_pages :: "real \<Rightarrow> state \<Rightarrow> state" where
  "cleanup_pages now s =
     s\<lparr>PAGES := (\<lambda>pid. case PAGES s pid of
                          None \<Rightarrow> None
                        | Some p \<Rightarrow> if now - page_ts p > PAGES_TTL_SEC then None else Some p)\<rparr>"

definition cleanup_answers :: "real \<Rightarrow> state \<Rightarrow> state" where
  "cleanup_answers now s =
     s\<lparr>ANSWER_CACHE := (\<lambda>k. case ANSWER_CACHE s k of
                               None \<Rightarrow> None
                             | Some v \<Rightarrow> if now - answer_ts v > ANSWER_TTL_SEC then None else Some v)\<rparr>"

text \<open>
  \<open>save_page\<close> reads the clock for the sweep, takes the new id \<open>pid\<close> and reads the clock
  again for the time stamp.
\<close>

definition save_page :: "real \<Rightarrow> ustr \<Rightarrow> real \<Rightarrow> ustr \<Rightarrow> ustr \<Rightarrow> state \<Rightarrow> ustr \<times> state" where
  "save_page now pid now' title html_str s =
     (let s1 = cleanup_pages now s
      in (pid, s1\<lparr>PAGES := (PAGES s1)(pid \<mapsto> \<lparr>page_title = title, html = html_str, page_ts = now'\<rparr>)\<rparr>))"

text \<open>\<^verbatim>\<open>re.sub(r"\s+", " ", s)\<close>: every maximal run of white space becomes one space.\<close>

function collapse_ws :: "ustr \<Rightarrow> ustr" where
  "collapse_ws [] = []"
| "collapse_ws (c # cs) =
     (if isspace c then 32 # collapse_ws (dropWhile isspace cs) else c # collapse_ws cs)"
  by pat_completeness auto
termination
proof (relation "measure length")
  fix c :: nat and cs :: ustr
  show "(dropWhile isspace cs, c # cs) \<in> measure length"
    using length_dropWhile_le [of isspace cs] by simp
qed auto

definition py_bool :: "bool \<Rightarrow> ustr" where
  "py_bool b = (if b then lit ''True'' else lit ''False'')"

definition normalize_question :: "caps \<Rightarrow> ustr \<Rightarrow> ustr" where
  "normalize_question C question = collapse_ws (str_lower C (strip question))"

definition cache_key :: "caps \<Rightarrow> ustr \<Rightarrow> ustr \<Rightarrow> bool \<Rightarrow> ustr \<Rightarrow> ustr \<Rightarrow> ustr" where
  "cache_key C question layout include_citations brand_class primary =
     (let norm = normalize_question C question;
          key = norm @ lit ''|'' @ layout @ lit ''|'' @ py_bool include_citations @ lit ''|'' @
                brand_class @ lit ''|'' @ primary
      in take 24 (sha256_hexdigest C key))"

section \<open>Content cache\<close>

text \<open>
  The paging loop shared by the three fetchers: \<open>page\<close> is the page requested next, \<open>n\<close>
  the number of pages left up to \<^verbatim>\<open>max_pages\<close>, \<open>out\<close> the result so far. A request that
  raises is logged and ends the loop, as an invalid page number, an empty page and a
  short page do.
\<close>

fun fetch_loop ::
  "('a \<Rightarrow> 'b list) \<Rightarrow> (nat \<Rightarrow> 'a response) \<Rightarrow> nat \<Rightarrow> nat \<Rightarrow> nat \<Rightarrow> 'b list \<Rightarrow> 'b list" where
  "fetch_loop process http per_page page 0 out = out"
| "fetch_loop process http per_page page (Suc n) out =
     (case http page of
        Raises \<Rightarrow> out
      | InvalidPage \<Rightarrow> out
      | Json items \<Rightarrow>
          if items = [] then out
          else let out' = out @ concat (map process items)
               in if length items < per_page then out'
                  else fetch_loop process http per_page (Suc page) n out')"

text \<open>
  The chunks of one post or page. Every call of \<^verbatim>\<open>chunk_text\<close> in the program uses the
  defaults \<^verbatim>\<open>max_chars=1200\<close>, \<^verbatim>\<open>overlap=120\<close>, for which the loop always returns.
\<close>

definition process_post :: "wp_item \<Rightarrow> doc list" where
  "process_post p =
     (let pid = item_id p;
          title = strip_html (if title_rendered p \<noteq> [] then title_rendered p else lit ''Untitled'');
          link = item_link p;
          content = strip_html (content_rendered p)
      in case chunk_text content 1200 120 of
           None \<Rightarrow> []
         | Some chunks \<Rightarrow>
             map (\<lambda>ch. \<lparr>post_id = pid, doc_title = title, doc_url = link, text_chunk = ch\<rparr>) chunks)"

definition fetch_wp_posts ::
  "(nat \<Rightarrow> wp_item response) \<Rightarrow> real \<Rightarrow> nat \<Rightarrow> nat \<Rightarrow> state \<Rightarrow> doc list \<times> state" where
  "fetch_wp_posts http now per_page max_pages s =
     (if docs (POSTS_CACHE s) \<noteq> [] \<and> now - ts (POSTS_CACHE s) < TTL then (docs (POSTS_CACHE s), s)
      else let out = fetch_loop process_post http per_page 1 max_pages []
           in (out, s\<lparr>POSTS_CACHE := \<lparr>ts = now, docs = out\<rparr>\<rparr>))"

definition fetch_wp_pages ::
  "(nat \<Rightarrow> wp_item response) \<Rightarrow> real \<Rightarrow> nat \<Rightarrow> nat \<Rightarrow> state \<Rightarrow> doc list \<times> state" where
  "fetch_wp_pages http now per_page max_pages s =
     (if docs (PAGES_CACHE s) \<noteq> [] \<and> now - ts (PAGES_CACHE s) < TTL then (docs (PAGES_CACHE s), s)
      else let out = fetch_loop process_post http per_page 1 max_pages []
           in (out, s\<lparr>PAGES_CACHE := \<lparr>ts = now, docs = out\<rparr>\<rparr>))"

text \<open>\<^verbatim>\<open>get_all_docs\<close>, with the clock and the content source of the call \<open>E\<close>.\<close>

definition get_all_docs :: "env \<Rightarrow> state \<Rightarrow> doc list \<times> state" where
  "get_all_docs E s =
     (let (posts, s1) = fetch_wp_posts (http_posts E) (t_posts E) 50 20 s;
          (pages, s2) = fetch_wp_pages (http_pages E) (t_pages E) 50 10 s1
      in (posts @ pages, s2))"

text \<open>
  One media item: only images are kept; the \<^verbatim>\<open>srcset\<close> lists the sizes that have a URL
  and a width, by ascending width.
\<close>

definition process_media :: "wp_media \<Rightarrow> image list" where
  "process_media m =
     (if media_type m \<noteq> lit ''image'' then []
      else let parts = map (\<lambda>(u, w). (w, u @ lit '' '' @ str_nat w @ lit ''w''))
                         (filter (\<lambda>(u, w). u \<noteq> [] \<and> w \<noteq> 0) (media_sizes m));
               srcset = join (lit '', '') (map snd (sort_key fst parts))
           in [\<lparr>img_id = lit ''wp_'' @ str_nat (media_id m), img_url = source_url m,
                img_title = media_title m, img_alt = alt_text m,
                img_caption = strip_html (caption_rendered m), img_width = media_width m,
                img_height = media_height m, img_srcset = srcset, img_sizes = lit ''100vw'',
                img_score = None\<rparr>])"

definition fetch_wp_media ::
  "(nat \<Rightarrow> wp_media response) \<Rightarrow> real \<Rightarrow> nat \<Rightarrow> nat \<Rightarrow> state \<Rightarrow> image list \<times> state" where
  "fetch_wp_media http now per_page max_pages s =
     (if imgs (MEDIA_CACHE s) \<noteq> [] \<and> now - media_ts (MEDIA_CACHE s) < TTL
      then (imgs (MEDIA_CACHE s), s)
      else let out = fetch_loop process_media http per_page 1 max_pages []
           in (out, s\<lparr>MEDIA_CACHE := \<lparr>media_ts = now, imgs = out\<rparr>\<rparr>))"

text \<open>
  \<^verbatim>\<open>get_post_attachments\<close>: one request per parent id; a request that raises (any error
  status included) is logged and skipped.
\<close>

definition get_post_attachments :: "(int \<Rightarrow> wp_media response) \<Rightarrow> int list \<Rightarrow> nat \<Rightarrow> image list" where
  "get_post_attachments http post_ids k =
     (if post_ids = [] then []
      else take k (concat (map (\<lambda>pid. case http pid of
                                          Json media_items \<Rightarrow> concat (map process_media media_items)
                                        | _ \<Rightarrow> []) post_ids)))"

section \<open>Search and ranking\<close>

text \<open>
  \<^verbatim>\<open>sorted(range(n), key=lambda i: scores[i], reverse=True)\<close>: the sort is stable, equal
  scores keep the order of the corpus.
\<close>

definition rank_indices :: "real list \<Rightarrow> nat list" where
  "rank_indices scores = sort_key (\<lambda>i. - (scores ! i)) [0..<length scores]"

text \<open>
  \<open>k\<close> is the number of results asked for. An index of the reranker outside the
  candidates raises inside the \<^verbatim>\<open>try\<close> and is handled like a failed call.
\<close>

definition search_docs :: "caps \<Rightarrow> env \<Rightarrow> ustr \<Rightarrow> nat \<Rightarrow> state \<Rightarrow> doc list \<times> state" where
  "search_docs C E query k s0 =
     (let (all_docs, s) = get_all_docs E (log_event SearchDocs s0)
      in if all_docs = [] then ([], s)
         else
           let corpus = map text_chunk all_docs;
               scores = map (bm25_scores C (map (tok C) corpus) (tok C query)) [0..<length corpus];
               M = max (k * 5) k;
               top_idx = take (min M (length scores)) (rank_indices scores);
               picked = map (\<lambda>i. all_docs ! i) top_idx;
               candidates = (if picked \<noteq> [] then picked else take M all_docs);
               s' = log_event CoRerank (log_event Bm25Rank s)
           in case rerank_search E query (map text_chunk candidates) (min k (length candidates)) of
                RerankRaises \<Rightarrow> (take k candidates, s')
              | RerankResults results \<Rightarrow>
                  if results \<noteq> [] then
                    (if list_all (\<lambda>r. index r < length candidates) results
                     then (map (\<lambda>r. candidates ! index r) results, s')
                     else (take k candidates, s'))
                  else (take k candidates, s'))"

section \<open>Planning and rendering\<close>

definition build_planner_prompt :: "ustr \<Rightarrow> source list \<Rightarrow> ustr \<Rightarrow> bool \<Rightarrow> ustr" where
  "build_planner_prompt question sources layout include_citations =
     (let ctx_lines =
            map (\<lambda>(i, s). lit ''['' @ str_nat i @ lit ''] '' @ src_title s @ lit '' '' @ [8212] @
                          lit '' '' @ src_url s @ lit ''\<newline>'' @ take 1800 (src_text s))
              (zip [1..<Suc (length sources)] sources)
      in lit ''You are a content planner. Output ONE JSON object ONLY (no markdown, no extra text).\<newline>'' @
         lit ''Use only facts from the sources. Every factual sentence must end with a [n] citation that matches a numbered source.\<newline>'' @
         lit ''If a claim is not supported by the sources, omit it.\<newline>'' @
         lit ''Layout: '' @ layout @ lit ''\<newline>'' @
         lit ''Schema: { \"title\": str, \"summary\": str, \"show_toc\": bool, \"sections\": [ {\"id\": str, \"heading\": str, \"paragraphs\": [str], \"bullets\": [str]} ] }\<newline>\<newline>'' @
         lit ''User question:\<newline>'' @ question @ lit ''\<newline>\<newline>'' @
         lit ''Relevant sources (cite as [n]):\<newline>'' @ join (lit ''\<newline>\<newline>'') ctx_lines)"

datatype plan_error = GenerateRaised | JsonError | ValueError

text \<open>
  \<^verbatim>\<open>cohere_plan\<close>: the text is parsed as it is; when that raises, the text from the first
  \<^verbatim>\<open>{\<close> to the last \<^verbatim>\<open>}\<close> is parsed, whose error is not caught here; without such a span
  a \<^verbatim>\<open>ValueError\<close> is raised.
\<close>

definition cohere_plan :: "caps \<Rightarrow> (ustr \<Rightarrow> ustr option) \<Rightarrow> ustr \<Rightarrow> plan_error + plan" where
  "cohere_plan C generate prompt =
     (case generate prompt of
        None \<Rightarrow> Inl GenerateRaised
      | Some text \<Rightarrow>
          let txt = strip text
          in case json_loads C txt of
               Some p \<Rightarrow> Inr p
             | None \<Rightarrow>
                 (case (py_find txt 123, py_rfind txt 125) of
                    (Some start, Some end) \<Rightarrow>
                      if end > start then
                        (case json_loads C (slice txt start (end + 1)) of
                           Some p \<Rightarrow> Inr p
                         | None \<Rightarrow> Inl JsonError)
                      else Inl ValueError
                  | _ \<Rightarrow> Inl ValueError))"

subsection \<open>\<^verbatim>\<open>render_article\<close>\<close>

definition article_header :: "plan \<Rightarrow> ustr \<Rightarrow> ustr" where
  "article_header plan brand_class =
     lit ''\<newline>'' @ lit ''    <article class=\"'' @ brand_class @ lit ''\">\<newline>'' @
     lit ''      <header class=\"'' @ brand_class @
     lit ''__header\" role=\"banner\">\<newline>'' @ lit ''        <h1 class=\"'' @ brand_class @
     lit ''__title\">'' @ plan_title plan @ lit ''</h1>\<newline>'' @
     lit ''        <p class=\"'' @ brand_class @ lit ''__summary\" aria-live=\"polite\">'' @
     summary plan @ lit ''</p>\<newline>'' @ lit ''      </header>\<newline>'' @ lit ''    ''"

definition hero_figure :: "image \<Rightarrow> ustr \<Rightarrow> ustr" where
  "hero_figure hero brand_class =
     lit ''\<newline>'' @ lit ''        <figure class=\"'' @ brand_class @
     lit ''__hero\" role=\"img\" aria-label=\"'' @ img_alt hero @ lit ''\">\<newline>'' @
     lit ''          <img src=\"'' @ img_url hero @ lit ''\" alt=\"'' @ img_alt hero @
     lit ''\" loading=\"lazy\" decoding=\"async\" class=\"'' @ brand_class @
     lit ''__hero-image\"/>\<newline>'' @ lit ''          <figcaption class=\"'' @ brand_class @
     lit ''__hero-caption\">'' @ img_caption hero @ lit ''</figcaption>\<newline>'' @
     lit ''        </figure>\<newline>'' @ lit ''        ''"

definition toc_parts :: "plan \<Rightarrow> ustr \<Rightarrow> ustr list" where
  "toc_parts plan brand_class =
     (if show_toc plan then
        [lit ''\<newline>'' @ lit ''        <nav class=\"'' @ brand_class @
         lit ''__toc\" aria-label=\"Table of contents\">\<newline>'' @
         lit ''          <p class=\"'' @ brand_class @ lit ''__toc-title\">Contents</p>\<newline>'' @
         lit ''          <ul class=\"'' @ brand_class @ lit ''__toc-list\">\<newline>'' @
         lit ''        ''] @
        map (\<lambda>sec. lit ''<li><a href=\"#'' @ sec_id sec @ lit ''\" class=\"'' @ brand_class @
                    lit ''__toc-link\">'' @ heading sec @ lit ''</a></li>'') (sections plan) @
        [lit ''</ul></nav>'']
      else [])"

definition paragraph_part :: "ustr \<Rightarrow> ustr \<Rightarrow> ustr" where
  "paragraph_part brand_class para =
     (if prefix [62] (strip para)
      then lit ''<blockquote class=\"'' @ brand_class @ lit ''__blockquote\">'' @
           strip (drop 1 (strip para)) @ lit ''</blockquote>''
      else lit ''<p class=\"'' @ brand_class @ lit ''__paragraph\">'' @ para @ lit ''</p>'')"

definition section_parts :: "ustr \<Rightarrow> plan_section \<Rightarrow> ustr list" where
  "section_parts brand_class sec =
     [lit ''<section id=\"'' @ sec_id sec @ lit ''\" class=\"'' @ brand_class @
      lit ''__section\" tabindex=\"-1\">'',
      lit ''<h2 class=\"'' @ brand_class @ lit ''__section-title\">'' @ heading sec @ lit ''</h2>''] @
     map (paragraph_part brand_class) (paragraphs sec) @
     (if bullets sec \<noteq> [] then
        [lit ''<ul class=\"'' @ brand_class @ lit ''__list\">''] @
        map (\<lambda>b. lit ''<li>'' @ b @ lit ''</li>'') (bullets sec) @
        [lit ''</ul>'']
      else []) @
     [lit ''</section>'']"

text \<open>The footer that lists the citations: the sources section of the article.\<close>

definition sources_parts :: "citation list \<Rightarrow> ustr \<Rightarrow> bool \<Rightarrow> ustr list" where
  "sources_parts citations brand_class include_citations =
     (if include_citations \<and> citations \<noteq> [] then
        [lit ''\<newline>'' @ lit ''        <footer class=\"'' @ brand_class @
         lit ''__sources\" aria-label=\"Content sources\">\<newline>'' @
         lit ''          <h2 class=\"'' @ brand_class @
         lit ''__sources-title\">Sources</h2>\<newline>'' @ lit ''          <ol class=\"'' @
         brand_class @ lit ''__sources-list\">\<newline>'' @ lit ''        ''] @
        map (\<lambda>(i, c).
               let url = (if cit_url c \<noteq> [] then cit_url c else lit ''#'');
                   title = (if cit_title c \<noteq> [] then cit_title c else url)
               in lit ''<li id=\"src-'' @ str_nat i @ lit ''\"><a href=\"'' @ url @
                  lit ''\" target=\"_blank\" rel=\"noopener noreferrer\">'' @ title @ lit ''</a></li>'')
          (zip [1..<Suc (length citations)] citations) @
        [lit ''</ol></footer>'']
      else [])"

definition render_article :: "plan \<Rightarrow> citation list \<Rightarrow> ustr \<Rightarrow> bool \<Rightarrow> image list \<Rightarrow> ustr" where
  "render_article plan citations brand_class include_citations images =
     concat
       ([article_header plan brand_class] @
        (case images of [] \<Rightarrow> [] | hero # gallery \<Rightarrow> [hero_figure hero brand_class]) @
        toc_parts plan brand_class @
        concat (map (section_parts brand_class) (sections plan)) @
        sources_parts citations brand_class include_citations @
        [lit ''</article>''])"

subsection \<open>\<^verbatim>\<open>build_fullpage_html\<close>\<close>

text \<open>
  The page template, cut into its parts around the canonical link, the download anchor
  and the article.
\<close>

definition page_head :: "ustr \<Rightarrow> ustr \<Rightarrow> ustr" where
  "page_head title trace_id =
     lit ''<!doctype html>\<newline>'' @ lit ''<html lang=\"en\">\<newline>'' @
     lit ''<head>\<newline>'' @ lit ''  <meta charset=\"utf-8\" />\<newline>'' @
     lit ''  <title>'' @ title @ lit ''</title>\<newline>'' @
     lit ''  <meta name=\"description\" content=\"Detailed article page for '' @ title @
     lit ''\" />\<newline>'' @
     lit ''  <meta name=\"viewport\" content=\"width=device-width, initial-scale=1\" />\<newline>'' @
     lit ''  <meta name=\"x-trace-id\" content=\"'' @ trace_id @ lit ''\" />\<newline>'' @
     lit ''  ''"

definition canonical_link :: "ustr \<Rightarrow> ustr" where
  "canonical_link canonical =
     lit ''<link rel=\"canonical\" href=\"'' @ canonical @ lit ''\" />''"

definition page_meta :: "ustr \<Rightarrow> ustr \<Rightarrow> ustr \<Rightarrow> ustr" where
  "page_meta title canonical primary =
     lit ''\<newline>'' @ lit ''  <meta property=\"og:title\" content=\"'' @ title @
     lit ''\" />\<newline>'' @
     lit ''  <meta property=\"og:type\" content=\"article\" />\<newline>'' @
     lit ''  <meta property=\"og:url\" content=\"'' @ canonical @ lit ''\" />\<newline>'' @
     lit ''  <meta name=\"theme-color\" content=\"'' @ primary @ lit ''\" />\<newline>''"

definition page_style :: "ustr \<Rightarrow> ustr \<Rightarrow> ustr" where
  "page_style primary brand_class =
     lit ''  <style>\<newline>'' @ lit ''    :root {\<newline>'' @ lit ''      --primary: '' @
     primary @ lit '';\<newline>'' @ lit ''      --text: #0f172a;\<newline>'' @
     lit ''      --muted: #64748b;\<newline>'' @ lit ''      --bg: #f3f6fb;\<newline>'' @
     lit ''      --card-bg: rgba(255, 255, 255, 0.3);\<newline>'' @
     lit ''      --border: rgba(15, 23, 42, 0.08);\<newline>'' @
     lit ''      --shadow-default: 0 14px 40px rgba(15, 23, 42, 0.08);\<newline>'' @
     lit ''      --shadow-glass: 0 8px 32px 0 rgba(31, 38, 135, 0.37);\<newline>'' @
     lit ''      --pill-radius: 9999px;\<newline>'' @
     lit ''      --card-radius: 16px;\<newline>'' @ lit ''      --max-width: 980px;\<newline>'' @
     lit ''      --font-family: ui-sans-serif, system-ui, -apple-system, Segoe UI, Roboto, Inter, Arial, sans-serif;\<newline>'' @
     lit ''    }\<newline>'' @ lit ''    html, body {\<newline>'' @
     lit ''      margin: 0; padding: 0;\<newline>'' @
     lit ''      background: var(--bg);\<newline>'' @
     lit ''      color: var(--text);\<newline>'' @
     lit ''      font-family: var(--font-family);\<newline>'' @
     lit ''      scroll-behavior: smooth;\<newline>'' @
     lit ''      min-height: 100vh;\<newline>'' @ lit ''    }\<newline>'' @ lit ''\<newline>'' @
     lit ''    /* Removed top header for buttons */\<newline>'' @ lit ''\<newline>'' @
     lit ''    .wrap {\<newline>'' @ lit ''      margin: 18px auto 40px;\<newline>'' @
     lit ''      max-width: var(--max-width);\<newline>'' @
     lit ''      padding: 0 16px;\<newline>'' @
     lit ''      min-height: calc(100vh - 150px);\<newline>'' @
     lit ''      display: flex;\<newline>'' @ lit ''      justify-content: center;\<newline>'' @
     lit ''      align-items: flex-start;\<newline>'' @ lit ''    }\<newline>'' @
     lit ''\<newline>'' @ lit ''    .card {\<newline>'' @
     lit ''      background: var(--card-bg);\<newline>'' @
     lit ''      border-radius: var(--card-radius);\<newline>'' @
     lit ''      box-shadow: var(--shadow-glass);\<newline>'' @
     lit ''      border: 1px solid rgba(255, 255, 255, 0.18);\<newline>'' @
     lit ''      backdrop-filter: blur(8px);\<newline>'' @
     lit ''      -webkit-backdrop-filter: blur(8px);\<newline>'' @
     lit ''      padding: clamp(24px, 3vw, 32px);\<newline>'' @
     lit ''      width: 100%;\<newline>'' @
     lit ''      max-width: var(--max-width);\<newline>'' @
     lit ''      display: flex;\<newline>'' @ lit ''      flex-direction: column;\<newline>'' @
     lit ''      box-sizing: border-box;\<newline>'' @ lit ''    }\<newline>'' @
     lit ''\<newline>'' @
     lit ''    /* Moved action buttons inside card, style them */\<newline>'' @
     lit ''    .actions {\<newline>'' @ lit ''      display: flex;\<newline>'' @
     lit ''      flex-wrap: wrap;\<newline>'' @ lit ''      gap: 8px;\<newline>'' @
     lit ''      align-items: center;\<newline>'' @
     lit ''      justify-content: flex-end;\<newline>'' @
     lit ''      margin-bottom: 1.5rem;\<newline>'' @ lit ''      min-width: 200px;\<newline>'' @
     lit ''    }\<newline>'' @ lit ''    @media (max-width: 480px) {\<newline>'' @
     lit ''      .actions {\<newline>'' @ lit ''        flex-direction: column;\<newline>'' @
     lit ''        align-items: stretch;\<newline>'' @ lit ''        gap: 6px;\<newline>'' @
     lit ''        min-width: 100%;\<newline>'' @ lit ''      }\<newline>'' @
     lit ''    }\<newline>'' @ lit ''\<newline>'' @ lit ''    .btn {\<newline>'' @
     lit ''      display: inline-flex;\<newline>'' @
     lit ''      align-items: center;\<newline>'' @ lit ''      gap: 8px;\<newline>'' @
     lit ''      font-weight: 700;\<newline>'' @ lit ''      padding: 9px 12px;\<newline>'' @
     lit ''      border-radius: var(--pill-radius);\<newline>'' @
     lit ''      border: 1px solid var(--border);\<newline>'' @
     lit ''      background: #eef2f7;\<newline>'' @ lit ''      color: var(--text);\<newline>'' @
     lit ''      cursor: pointer;\<newline>'' @ lit ''      text-decoration: none;\<newline>'' @
     lit ''      transition: transform 0.08s ease, filter 0.2s ease;\<newline>'' @
     lit ''      font-size: 0.9rem;\<newline>'' @ lit ''      user-select: none;\<newline>'' @
     lit ''    }\<newline>'' @ lit ''    .btn:hover {\<newline>'' @
     lit ''      filter: brightness(1.02);\<newline>'' @ lit ''    }\<newline>'' @
     lit ''    .btn:active {\<newline>'' @ lit ''      transform: translateY(1px);\<newline>'' @
     lit ''    }\<newline>'' @ lit ''    .btn:focus {\<newline>'' @
     lit ''      outline: 2px solid var(--primary);\<newline>'' @
     lit ''      outline-offset: 2px;\<newline>'' @
     lit ''      outline-style: solid;\<newline>'' @ lit ''    }\<newline>'' @
     lit ''    .btn.primary {\<newline>'' @ lit ''      background: var(--primary);\<newline>'' @
     lit ''      color: #fff;\<newline>'' @ lit ''      border-color: transparent;\<newline>'' @
     lit ''      box-shadow: 0 12px 26px rgba(34,197,94,0.25);\<newline>'' @
     lit ''    }\<newline>'' @ lit ''\<newline>'' @
     lit ''    /* Brand chip and contact styling */\<newline>'' @
     lit ''    .brand {\<newline>'' @ lit ''      display: flex;\<newline>'' @
     lit ''      align-items: center;\<newline>'' @ lit ''      gap: 12px;\<newline>'' @
     lit ''      margin-top: 2rem;\<newline>'' @ lit ''      user-select: none;\<newline>'' @
     lit ''    }\<newline>'' @ lit ''    .chip {\<newline>'' @
     lit ''      width: 36px;\<newline>'' @ lit ''      height: 36px;\<newline>'' @
     lit ''      display: grid;\<newline>'' @ lit ''      place-items: center;\<newline>'' @
     lit ''      border-radius: 50%;\<newline>'' @
     lit ''      background: var(--primary);\<newline>'' @ lit ''      color: #fff;\<newline>'' @
     lit ''      font-weight: 900;\<newline>'' @ lit ''      font-size: 18px;\<newline>'' @
     lit ''      box-shadow: 0 8px 20px rgba(34, 197, 94, 0.35);\<newline>'' @
     lit ''      flex-shrink: 0;\<newline>'' @ lit ''    }\<newline>'' @
     lit ''    .brand-name {\<newline>'' @ lit ''      font-weight: 600;\<newline>'' @
     lit ''      font-size: 1.125rem;\<newline>'' @ lit ''      color: #3b3c4a;\<newline>'' @
     lit ''      user-select: text;\<newline>'' @ lit ''    }\<newline>'' @
     lit ''    .contact {\<newline>'' @ lit ''      margin-top: 1.25rem;\<newline>'' @
     lit ''      font-size: 1rem;\<newline>'' @
     lit ''      color: var(--muted, #64748b);\<newline>'' @
     lit ''      line-height: 1.5;\<newline>'' @ lit ''    }\<newline>'' @
     lit ''    .contact strong {\<newline>'' @ lit ''      display: block;\<newline>'' @
     lit ''      margin-bottom: 0.4rem;\<newline>'' @
     lit ''      color: var(--text);\<newline>'' @ lit ''      font-weight: 600;\<newline>'' @
     lit ''    }\<newline>'' @ lit ''    .contact a {\<newline>'' @
     lit ''      color: var(--primary);\<newline>'' @
     lit ''      text-decoration: none;\<newline>'' @
     lit ''      transition: color 0.2s ease;\<newline>'' @ lit ''    }\<newline>'' @
     lit ''    .contact a:hover {\<newline>'' @
     lit ''      text-decoration: underline;\<newline>'' @ lit ''    }\<newline>'' @
     lit ''\<newline>'' @ lit ''    /* Spacing between paragraphs and lists */\<newline>'' @
     lit ''    .'' @ brand_class @ lit '' p,\<newline>'' @ lit ''    .'' @ brand_class @
     lit '' li,\<newline>'' @ lit ''    .'' @ brand_class @ lit '' ul,\<newline>'' @
     lit ''    .'' @ brand_class @ lit '' ol {\<newline>'' @
     lit ''      margin-bottom: 0.85em;\<newline>'' @ lit ''    }\<newline>'' @
     lit ''\<newline>'' @ lit ''    .'' @ brand_class @ lit '' ul, .'' @ brand_class @
     lit '' ol {\<newline>'' @ lit ''      margin-top: 0.5em;\<newline>'' @
     lit ''      padding-left: 2em;\<newline>'' @ lit ''    }\<newline>'' @ lit ''\<newline>'' @
     lit ''    .'' @ brand_class @ lit '' li {\<newline>'' @
     lit ''      line-height: 1.8;\<newline>'' @ lit ''    }\<newline>'' @ lit ''\<newline>'' @
     lit ''    @media print {\<newline>'' @ lit ''      .actions {\<newline>'' @
     lit ''        display: none !important;\<newline>'' @ lit ''      }\<newline>'' @
     lit ''      body {\<newline>'' @ lit ''        background: #fff;\<newline>'' @
     lit ''      }\<newline>'' @ lit ''      .card {\<newline>'' @
     lit ''        box-shadow: none;\<newline>'' @ lit ''        border: none;\<newline>'' @
     lit ''        padding: 0;\<newline>'' @ lit ''        backdrop-filter: none;\<newline>'' @
     lit ''      }\<newline>'' @ lit ''      a {\<newline>'' @
     lit ''        color: #000;\<newline>'' @
     lit ''        text-decoration: underline;\<newline>'' @ lit ''      }\<newline>'' @
     lit ''    }\<newline>'' @ lit ''  </style>\<newline>'' @ lit ''</head>\<newline>'' @
     lit ''<body>\<newline>'' @ lit ''\<newline>'' @
     lit ''  <main class=\"wrap\" role=\"main\">\<newline>'' @ lit ''    <div class=\"card '' @
     brand_class @ lit ''\">\<newline>'' @ lit ''\<newline>'' @
     lit ''      <!-- Actions moved inside card -->\<newline>'' @
     lit ''      <nav class=\"actions\" aria-label=\"Page actions\">\<newline>'' @
     lit ''        ''"

definition download_anchor :: "ustr \<Rightarrow> ustr" where
  "download_anchor download_url =
     lit ''<a class=\"btn primary\" href=\"'' @ download_url @ lit ''\"''"

definition page_actions :: "ustr \<Rightarrow> ustr" where
  "page_actions safe_title =
     lit '' download=\"'' @ safe_title @
     lit ''.html\" aria-label=\"Download article as HTML\">\<newline>'' @
     lit ''          <svg width=\"16\" height=\"16\" viewBox=\"0 0 24 24\" stroke=\"currentColor\" fill=\"none\" stroke-width=\"2\" aria-hidden=\"true\">\<newline>'' @
     lit ''            <path d=\"M12 3v12\"/>\<newline>'' @
     lit ''            <path d=\"M7 10l5 5 5-5\"/>\<newline>'' @
     lit ''            <path d=\"M5 21h14\"/>\<newline>'' @ lit ''          </svg>\<newline>'' @
     lit ''          Download .html\<newline>'' @ lit ''        </a>\<newline>'' @
     lit ''        <button class=\"btn\" id=\"print\" aria-label=\"Print or save as PDF\" title=\"Print or Save as PDF\">\<newline>'' @
     lit ''          <svg width=\"16\" height=\"16\" viewBox=\"0 0 24 24\" stroke=\"currentColor\" fill=\"none\" stroke-width=\"2\" aria-hidden=\"true\">\<newline>'' @
     lit ''            <path d=\"M6 9V2h12v7\"/>\<newline>'' @
     lit ''            <path d=\"M6 18h12v4H6z\"/>\<newline>'' @
     lit ''            <path d=\"M6 14h12\"/>\<newline>'' @ lit ''          </svg>\<newline>'' @
     lit ''          Print / Save as PDF\<newline>'' @ lit ''        </button>\<newline>'' @
     lit ''        <button class=\"btn\" id=\"copy\" aria-label=\"Copy current page link\" title=\"Copy Link\">\<newline>'' @
     lit ''          <svg width=\"16\" height=\"16\" viewBox=\"0 0 24 24\" stroke=\"currentColor\" fill=\"none\" stroke-width=\"2\" aria-hidden=\"true\">\<newline>'' @
     lit ''            <rect x=\"9\" y=\"9\" width=\"13\" height=\"13\" rx=\"2\"/>\<newline>'' @
     lit ''            <rect x=\"2\" y=\"2\" width=\"13\" height=\"13\" rx=\"2\"/>\<newline>'' @
     lit ''          </svg>\<newline>'' @ lit ''          Copy link\<newline>'' @
     lit ''        </button>\<newline>'' @ lit ''      </nav>\<newline>'' @ lit ''\<newline>'' @
     lit ''      ''"

definition page_foot :: "caps \<Rightarrow> ustr \<Rightarrow> ustr \<Rightarrow> ustr \<Rightarrow> ustr \<Rightarrow> ustr" where
  "page_foot C brand_class contact_email contact_phone contact_url =
     lit ''\<newline>'' @ lit ''\<newline>'' @
     lit ''      <div class=\"brand\" aria-label=\"Brand identity\">\<newline>'' @
     lit ''        <div class=\"chip\" aria-label=\"Brand initial\">'' @
     str_upper C (take 1 brand_class) @ lit ''</div>\<newline>'' @
     lit ''        <div class=\"brand-name\">'' @ brand_class @ lit ''</div>\<newline>'' @
     lit ''      </div>\<newline>'' @
     lit ''      <div class=\"contact\" aria-label=\"Contact information\">\<newline>'' @
     lit ''        <strong>Contact us</strong>\<newline>'' @
     lit ''        Email: <a href=\"mailto:'' @ contact_email @ lit ''\">'' @ contact_email @
     lit ''</a> '' @ [183] @ lit '' Phone: '' @ contact_phone @ lit '' '' @ [183] @
     lit ''\<newline>'' @ lit ''        <a href=\"'' @ contact_url @
     lit ''\" target=\"_blank\" rel=\"noopener noreferrer\">Contact page</a>\<newline>'' @
     lit ''      </div>\<newline>'' @ lit ''    </div>\<newline>'' @
     lit ''  </main>\<newline>'' @ lit ''  <script>\<newline>'' @
     lit ''    document.getElementById('' @ [39] @ lit ''print'' @ [39] @
     lit '').onclick = () => window.print();\<newline>'' @ lit ''    document.getElementById('' @
     [39] @ lit ''copy'' @ [39] @ lit '').onclick = async () => {\<newline>'' @
     lit ''      try {\<newline>'' @
     lit ''        await navigator.clipboard.writeText(window.location.href);\<newline>'' @
     lit ''        const btn = document.getElementById('' @ [39] @ lit ''copy'' @ [39] @
     lit '');\<newline>'' @ lit ''        const originalText = btn.textContent;\<newline>'' @
     lit ''        btn.textContent = '' @ [39] @ lit ''Copied!'' @ [39] @ lit '';\<newline>'' @
     lit ''        setTimeout(() => btn.textContent = originalText, 1000);\<newline>'' @
     lit ''      } catch (e) {\<newline>'' @ lit ''        console.warn('' @ [39] @
     lit ''Clipboard write failed'' @ [39] @ lit '', e);\<newline>'' @
     lit ''      }\<newline>'' @ lit ''    };\<newline>'' @ lit ''  </script>\<newline>'' @
     lit ''</body>\<newline>'' @ lit ''</html>\<newline>''"

text \<open>
  The contact details are the defaults \<^verbatim>\<open>CONTACT_EMAIL\<close>, \<^verbatim>\<open>CONTACT_PHONE\<close> and
  \<^verbatim>\<open>CONTACT_URL\<close> at every call. The variable \<^verbatim>\<open>phone_part\<close> of the source is never used.
\<close>

definition build_fullpage_html ::
  "caps \<Rightarrow> ustr \<Rightarrow> ustr \<Rightarrow> ustr \<Rightarrow> ustr \<Rightarrow> ustr \<Rightarrow> ustr \<Rightarrow> ustr \<Rightarrow> ustr" where
  "build_fullpage_html C title article_html brand_class primary trace_id pid base_url =
     (let canonical = base_url @ lit ''/v/'' @ pid;
          download_url = canonical @ lit ''/download'';
          safe_title = slugify C (if title \<noteq> [] then title else lit ''article'')
      in page_head title trace_id @ canonical_link canonical @ page_meta title canonical primary @
         page_style primary brand_class @ download_anchor download_url @ page_actions safe_title @
         article_html @ page_foot C brand_class CONTACT_EMAIL CONTACT_PHONE CONTACT_URL)"

section \<open>Compose pipeline\<close>

datatype py_error = IndexError

record result =
  res_id :: ustr
  res_title :: ustr
  res_trace_id :: ustr

definition no_sources_plan :: plan where
  "no_sources_plan =
     \<lparr>plan_title = lit ''No sources available'', summary = [], show_toc = False,
      sections =
        [\<lparr>sec_id = lit ''s1'', heading = lit ''Please try again'',
          paragraphs =
            [lit ''We couldn'' @ [39] @
             lit ''t find any relevant sources from the site. Try rephrasing your question.''],
          bullets = []\<rparr>]\<rparr>"

definition low_confidence_plan :: plan where
  "low_confidence_plan =
     \<lparr>plan_title = lit ''We couldn'' @ [8217] @ lit ''t find a confident answer'', summary = [],
      show_toc = False,
      sections =
        [\<lparr>sec_id = lit ''s1'', heading = lit ''Try rephrasing your question'',
          paragraphs =
            [lit ''We couldn'' @ [8217] @ lit ''t confidently answer from the site'' @ [8217] @
             lit ''s content. Please rephrase or narrow the topic.''],
          bullets = []\<rparr>]\<rparr>"

text \<open>
  The plan built when the planner fails, from the first source.
\<close>

definition passthrough_plan :: "source \<Rightarrow> plan" where
  "passthrough_plan top_src =
     \<lparr>plan_title = src_title top_src, summary = [], show_toc = False,
      sections =
        [\<lparr>sec_id = lit ''s1'', heading = src_title top_src, paragraphs = [src_text top_src],
          bullets = []\<rparr>]\<rparr>"

text \<open>
  The last five lines of each of the three branches that build a page: the page is saved
  with the id \<^verbatim>\<open>"tmp"\<close> in its HTML, the HTML is built again with the id that
  \<open>save_page\<close> returned and written over the stored one, and the memo entry is recorded.
\<close>

definition persist_page ::
  "caps \<Rightarrow> env \<Rightarrow> ustr \<Rightarrow> ustr \<Rightarrow> ustr \<Rightarrow> ustr \<Rightarrow> ustr \<Rightarrow> ustr \<Rightarrow> ustr \<Rightarrow> state \<Rightarrow> result \<times> state" where
  "persist_page C E ck title safe_article brand_class primary trace_id base_url s =
     (let (pid, s1) =
            save_page (t_cleanup_pages E) (token_urlsafe E) (t_save E) title
              (build_fullpage_html C title safe_article brand_class primary trace_id (lit ''tmp'')
                 base_url) s;
          full_html = build_fullpage_html C title safe_article brand_class primary trace_id pid base_url;
          s2 = s1\<lparr>PAGES := (\<lambda>k. if k = pid then map_option (\<lambda>p. p\<lparr>html := full_html\<rparr>) (PAGES s1 pid)
                                 else PAGES s1 k)\<rparr>;
          s3 = s2\<lparr>ANSWER_CACHE := (ANSWER_CACHE s2)(ck \<mapsto> \<lparr>page_id = pid, answer_ts = t_memo E\<rparr>)\<rparr>
      in (\<lparr>res_id = pid, res_title = title, res_trace_id = trace_id\<rparr>, s3))"

text \<open>The page of a fallback plan: no citations, no images.\<close>

definition fallback_page ::
  "caps \<Rightarrow> env \<Rightarrow> plan \<Rightarrow> ustr \<Rightarrow> ustr \<Rightarrow> ustr \<Rightarrow> ustr \<Rightarrow> ustr \<Rightarrow> state
     \<Rightarrow> (py_error + result) \<times> state" where
  "fallback_page C E plan ck brand_class primary trace_id base_url s =
     (let article_html = render_article plan [] brand_class False [];
          safe_article = linkify_citations (sanitize_html C article_html) ([] :: citation list);
          title = plan_title plan;
          (r, s') = persist_page C E ck title safe_article brand_class primary trace_id base_url s
      in (Inr r, s'))"

text \<open>
  The keyword score of the cached media. The scores are written into the cached
  dictionaries and the cached list itself is sorted.
\<close>

definition score_images :: "caps \<Rightarrow> ustr \<Rightarrow> image list \<Rightarrow> image list" where
  "score_images C question all_imgs =
     (let terms = tok C question;
          scored = map (\<lambda>i. let text = str_lower C (join (lit '' '') [img_title i, img_alt i, img_caption i])
                             in i\<lparr>img_score := Some (sum_list (map (py_count text) terms))\<rparr>) all_imgs
      in sort_key (\<lambda>x. - int (case img_score x of None \<Rightarrow> 0 | Some n \<Rightarrow> n)) scored)"

definition select_images :: "caps \<Rightarrow> env \<Rightarrow> ustr \<Rightarrow> doc list \<Rightarrow> state \<Rightarrow> image list \<times> state" where
  "select_images C E question doc_hits s0 =
     (let post_ids = concat (map (\<lambda>h. case post_id h of
                                          None \<Rightarrow> []
                                        | Some n \<Rightarrow> if n \<noteq> 0 then [n] else []) doc_hits);
          images = get_post_attachments (http_attachments E) post_ids 3;
          s = log_event PostAttachments s0
      in if images = [] then
           (let (all_imgs, s1) = fetch_wp_media (http_media E) (t_media E) 80 10 (log_event MediaLookup s);
                sorted_imgs = score_images C question all_imgs
            in (take 3 sorted_imgs, s1\<lparr>MEDIA_CACHE := (MEDIA_CACHE s1)\<lparr>imgs := sorted_imgs\<rparr>\<rparr>))
         else (images, s))"

text \<open>
  The plan of the planner, or the passthrough plan when \<^verbatim>\<open>cohere_plan\<close> raises. Reading
  \<^verbatim>\<open>sources[0]\<close> in the handler raises an \<^verbatim>\<open>IndexError\<close> when there is no source.
\<close>

definition plan_or_passthrough :: "caps \<Rightarrow> env \<Rightarrow> ustr \<Rightarrow> source list \<Rightarrow> py_error + plan" where
  "plan_or_passthrough C E prompt sources =
     (case cohere_plan C (co_generate E) prompt of
        Inr p \<Rightarrow> Inr p
      | Inl e \<Rightarrow> (case sources of [] \<Rightarrow> Inl IndexError | top_src # rest \<Rightarrow> Inr (passthrough_plan top_src)))"

text \<open>The sources handed to the planner and the citations of the page.\<close>

definition make_sources :: "doc list \<Rightarrow> source list" where
  "make_sources doc_hits =
     map (\<lambda>h. \<lparr>src_title = (if doc_title h \<noteq> [] then doc_title h else lit ''Untitled''),
               src_url = doc_url h, src_text = take 1800 (text_chunk h)\<rparr>)
       (take FINAL_DOCS doc_hits)"

definition make_citations :: "caps \<Rightarrow> source list \<Rightarrow> citation list" where
  "make_citations C sources =
     dedupe_citations C (map (\<lambda>s. \<lparr>cit_title = src_title s, cit_url = src_url s\<rparr>) sources)"

text \<open>The branch behind the confidence gate: sources, citations, images, plan, page.\<close>

definition full_synthesis ::
  "caps \<Rightarrow> env \<Rightarrow> ustr \<Rightarrow> ustr \<Rightarrow> bool \<Rightarrow> ustr \<Rightarrow> ustr \<Rightarrow> ustr \<Rightarrow> ustr \<Rightarrow> ustr \<Rightarrow> doc list \<Rightarrow> state
     \<Rightarrow> (py_error + result) \<times> state" where
  "full_synthesis C E question layout include_citations brand_class primary base_url trace_id ck
     doc_hits s =
     (let sources = make_sources doc_hits;
          citations = make_citations C sources;
          (images, s1) = select_images C E question doc_hits s;
          prompt = build_planner_prompt question sources layout include_citations;
          s2 = log_event CoGenerate s1
      in case plan_or_passthrough C E prompt sources of
           Inl e \<Rightarrow> (Inl e, s2)
         | Inr plan \<Rightarrow>
             (let article_html = render_article plan citations brand_class include_citations images;
                  safe_article = linkify_citations (sanitize_html C article_html) citations;
                  title = (if plan_title plan \<noteq> [] then plan_title plan else lit ''Article'');
                  (r, s3) = persist_page C E ck title safe_article brand_class primary trace_id
                              base_url s2
              in (Inr r, s3)))"

text \<open>
  The confidence probe: \<open>1\<close> unless the reranker answers, then the score of its first
  result (\<open>0\<close> when that has none).
\<close>

definition top_score_of :: "rerank_outcome \<Rightarrow> real" where
  "top_score_of rr_top =
     (case rr_top of
        RerankRaises \<Rightarrow> 1
      | RerankResults [] \<Rightarrow> 1
      | RerankResults (r # rs) \<Rightarrow> (case relevance_score r of None \<Rightarrow> 0 | Some x \<Rightarrow> x))"

text \<open>The fast path: the memo entry of the key, when the page it names is stored.\<close>

definition memo_lookup :: "state \<Rightarrow> ustr \<Rightarrow> (ustr \<times> ustr) option" where
  "memo_lookup s ck =
     (case ANSWER_CACHE s ck of
        None \<Rightarrow> None
      | Some cached \<Rightarrow>
          (case PAGES s (page_id cached) of
             None \<Rightarrow> None
           | Some p \<Rightarrow> Some (page_id cached, page_title p)))"

definition compose_answer_page ::
  "caps \<Rightarrow> env \<Rightarrow> ustr \<Rightarrow> ustr \<Rightarrow> bool \<Rightarrow> ustr \<Rightarrow> ustr \<Rightarrow> ustr \<Rightarrow> state
     \<Rightarrow> (py_error + result) \<times> state" where
  "compose_answer_page C E question layout include_citations brand_class primary base_url s0 =
     (let trace_id = trace_id_for C question;
          s = cleanup_answers (t_answers E) s0;
          ck = cache_key C question layout include_citations brand_class primary
      in case memo_lookup s ck of
           Some (pid, title) \<Rightarrow>
             (Inr \<lparr>res_id = pid, res_title = title, res_trace_id = trace_id\<rparr>, s)
         | None \<Rightarrow>
             (let (doc_hits, s1) = search_docs C E question FINAL_DOCS s
              in if doc_hits = [] then
                   fallback_page C E no_sources_plan ck brand_class primary trace_id base_url s1
                 else
                   (let top_score =
                          top_score_of (rerank_probe E question (map text_chunk doc_hits) 1);
                        s2 = log_event CoRerank s1
                    in if RERANK_THRESHOLD \<noteq> 0 \<and> top_score < RERANK_THRESHOLD then
                         fallback_page C E low_confidence_plan ck brand_class primary trace_id
                           base_url s2
                       else
                         full_synthesis C E question layout include_citations brand_class primary
                           base_url trace_id ck doc_hits s2)))"

section \<open>Routes\<close>

datatype http_error = NotFound

definition view_page :: "real \<Rightarrow> ustr \<Rightarrow> state \<Rightarrow> (http_error + ustr) \<times> state" where
  "view_page now pid s0 =
     (let s = cleanup_pages now s0
      in case PAGES s pid of
           None \<Rightarrow> (Inl NotFound, s)
         | Some p \<Rightarrow> (Inr (html p), s))"

text \<open>The download answers with the file name and the HTML.\<close>

definition download_page :: "caps \<Rightarrow> real \<Rightarrow> ustr \<Rightarrow> state \<Rightarrow> (http_error + ustr \<times> ustr) \<times> state" where
  "download_page C now pid s0 =
     (let s = cleanup_pages now s0
      in case PAGES s pid of
           None \<Rightarrow> (Inl NotFound, s)
         | Some p \<Rightarrow>
             (Inr (secure_filename C (page_title p @ lit ''-'' @ pid @ lit ''.html''), html p), s))"

section \<open>Notions used in the statements\<close>

text \<open>
  A re-fetch that fails at the request for page \<open>j + 1\<close>: the pages \<open>1\<close> to \<open>j\<close> arrive
  full, the next request raises. \<open>j = 0\<close> is the fetch that fails outright.
\<close>

definition full_page :: "nat \<Rightarrow> 'a response \<Rightarrow> bool" where
  "full_page per_page r = (case r of Json items \<Rightarrow> items \<noteq> [] \<and> per_page \<le> length items | _ \<Rightarrow> False)"

definition fails_at :: "(nat \<Rightarrow> 'a response) \<Rightarrow> nat \<Rightarrow> nat \<Rightarrow> bool" where
  "fails_at http per_page j \<longleftrightarrow>
     list_all (\<lambda>p. full_page per_page (http p)) [1..<Suc j] \<and> http (Suc j) = Raises"

text \<open>What the pages \<open>1\<close> to \<open>j\<close> contribute to the result.\<close>

definition fetched :: "('a \<Rightarrow> 'b list) \<Rightarrow> (nat \<Rightarrow> 'a response) \<Rightarrow> nat \<Rightarrow> 'b list" where
  "fetched process http j =
     concat (map (\<lambda>p. case http p of Json items \<Rightarrow> concat (map process items) | _ \<Rightarrow> [])
               [1..<Suc j])"

text \<open>A content source whose every request raises, and a cache of posts taken at time 0.\<close>

definition unreachable_source :: "nat \<Rightarrow> 'a response" where
  "unreachable_source page = Raises"

definition old_doc :: doc where
  "old_doc = \<lparr>post_id = Some 7, doc_title = lit ''About'', doc_url = lit ''https://agent42labs.com/about'',
              text_chunk = lit ''We build agents.''\<rparr>"

definition stale_state :: state where
  "stale_state = initial_state\<lparr>POSTS_CACHE := \<lparr>ts = 0, docs = [old_doc]\<rparr>\<rparr>"


text \<open>The lexical scores of a corpus of documents for a query.\<close>

definition lexical_scores :: "caps \<Rightarrow> ustr \<Rightarrow> doc list \<Rightarrow> real list" where
  "lexical_scores C query ds =
     map (bm25_scores C (map (tok C) (map text_chunk ds)) (tok C query)) [0..<length ds]"

text \<open>A reranker that raises on every call.\<close>

definition rerank_down :: "ustr \<Rightarrow> ustr list \<Rightarrow> nat \<Rightarrow> rerank_outcome" where
  "rerank_down query documents top_n = RerankRaises"

text \<open>
  A concrete setting for the examples: library functions that leave their argument as it
  is, a JSON parser that accepts nothing and scores that are all zero; a call at time
  1000 for which the content source, the reranker and the planner are all down; and a
  state whose cache of posts is 100 seconds old.
\<close>

definition demo_caps :: caps where
  "demo_caps =
     \<lparr>sha256_hexdigest = (\<lambda>t. t), bleach_clean = (\<lambda>h tags attrs. h), slugify = (\<lambda>t. t),
      secure_filename = (\<lambda>t. t), str_lower = (\<lambda>t. t), str_upper = (\<lambda>t. t),
      json_loads = (\<lambda>t. None), bm25_scores = (\<lambda>corpus q i. 0)\<rparr>"

definition demo_env :: env where
  "demo_env =
     \<lparr>t_answers = 1000, t_posts = 1000, http_posts = unreachable_source, t_pages = 1000,
      http_pages = unreachable_source, rerank_search = rerank_down, rerank_probe = rerank_down,
      http_attachments = (\<lambda>pid. Raises), t_media = 1000, http_media = unreachable_source,
      co_generate = (\<lambda>prompt. None), t_cleanup_pages = 1000,
      token_urlsafe = lit ''Zx3kQ9w_aB-7Lm'', t_save = 1000, t_memo = 1000\<rparr>"

definition demo_state :: state where
  "demo_state = initial_state\<lparr>POSTS_CACHE := \<lparr>ts = 900, docs = [old_doc]\<rparr>\<rparr>"

definition demo_question :: ustr where
  "demo_question = lit ''What services do you offer?''"

definition demo_layout :: ustr where
  "demo_layout = lit ''guide''"

definition demo_brand :: ustr where
  "demo_brand = lit ''agent42labs''"

definition demo_primary :: ustr where
  "demo_primary = lit ''#21808d''"

definition demo_base :: ustr where
  "demo_base = lit ''http://localhost:8080''"



text \<open>A confidence probe that answers with the score 0.05.\<close>

definition low_probe :: "ustr \<Rightarrow> ustr list \<Rightarrow> nat \<Rightarrow> rerank_outcome" where
  "low_probe query documents top_n = RerankResults [\<lparr>index = 0, relevance_score = Some (5 / 100)\<rparr>]"


text \<open>The same question with other white space, and a later call at time 2000.\<close>

definition demo_question2 :: ustr where
  "demo_question2 = lit ''  What services   do you offer? ''"

definition demo_env_later :: env where
  "demo_env_later = demo_env\<lparr>t_answers := 2000\<rparr>"

text \<open>The call of the example with a confidence probe that answers low.\<close>

definition demo_env_low :: env where
  "demo_env_low = demo_env\<lparr>rerank_probe := low_probe\<rparr>"









section \<open>Sequences of requests\<close>

text \<open>
  The three routes that touch the page store and the answer cache, each with what the
  request reads from outside: a compose request with its environment and its parameters,
  a view and a download with the time of the request and the page id. A sequence of
  requests is served one after the other, each on the state the one before left.
\<close>

datatype op =
    Compose env ustr ustr bool ustr ustr ustr
  | View real ustr
  | Download real ustr

fun step :: "caps \<Rightarrow> state \<Rightarrow> op \<Rightarrow> state" where
  "step C s (Compose E question layout include_citations brand_class primary base_url) =
     snd (compose_answer_page C E question layout include_citations brand_class primary base_url s)"
| "step C s (View now pid) = snd (view_page now pid s)"
| "step C s (Download now pid) = snd (download_page C now pid s)"

definition run :: "caps \<Rightarrow> op list \<Rightarrow> state \<Rightarrow> state" where
  "run C ops s = foldl (step C) s ops"

text \<open>
  A request made before the time \<open>T\<close> that does not draw the page id \<open>pid\<close> again: a compose
  request whose clock at the answer sweep is not after \<open>T\<close> and whose token is not \<open>pid\<close>;
  any view, any download.
\<close>

fun undisturbed :: "real \<Rightarrow> ustr \<Rightarrow> op \<Rightarrow> bool" where
  "undisturbed T pid (Compose E question layout include_citations brand_class primary base_url) =
     (t_answers E \<le> T \<and> token_urlsafe E \<noteq> pid)"
| "undisturbed T pid (View now p) = True"
| "undisturbed T pid (Download now p) = True"





text \<open>
  A view and a download of the example page between two calls, and the history of a
  server that has served the example call and nothing else.
\<close>

definition demo_between :: "op list" where
  "demo_between = [View 1500 (lit ''Zx3kQ9w_aB-7Lm''), Download 1600 (lit ''Zx3kQ9w_aB-7Lm'')]"


section \<open>Content cache: a re-fetch that fails\<close>

lemma fetch_loop_raises:
  "http page = Raises \<Longrightarrow> 0 < n \<Longrightarrow> fetch_loop process http per_page page n out = out"
  by (cases n) simp_all

lemma fetched_Suc:
  "fetched process http (Suc j) =
     fetched process http j @ (case http (Suc j) of Json items \<Rightarrow> concat (map process items) | _ \<Rightarrow> [])"
  by (simp add: fetched_def)

lemma fetch_loop_fails_at:
  assumes "list_all (\<lambda>p. full_page per_page (http p)) [page..<page + j]"
    and "http (page + j) = Raises" and "j < n"
  shows "fetch_loop process http per_page page n out =
         out @ concat (map (\<lambda>p. case http p of Json items \<Rightarrow> concat (map process items) | _ \<Rightarrow> [])
                         [page..<page + j])"
  using assms
proof (induction j arbitrary: page n out)
  case 0
  then obtain m where "n = Suc m" by (cases n) auto
  with 0 show ?case by simp
next
  case (Suc j)
  then obtain m where n: "n = Suc m" and m: "j < m" by (cases n) auto
  have up: "[page..<page + Suc j] = page # [Suc page..<Suc page + j]"
    by (simp add: upt_rec)
  from Suc.prems(1) have fp: "full_page per_page (http page)"
    and rest: "list_all (\<lambda>p. full_page per_page (http p)) [Suc page..<Suc page + j]"
    unfolding up by simp_all
  from fp obtain items where it: "http page = Json items" "items \<noteq> []" "per_page \<le> length items"
    by (auto simp: full_page_def split: response.splits)
  from Suc.prems(2) have r: "http (Suc page + j) = Raises" by simp
  show ?case
    unfolding n up using it Suc.IH[OF rest r m] by simp
qed

lemma fetch_loop_from_1:
  assumes "fails_at http per_page j" and "j < max_pages"
  shows "fetch_loop process http per_page (Suc 0) max_pages [] = fetched process http j"
proof -
  from assms have "list_all (\<lambda>p. full_page per_page (http p)) [Suc 0..<Suc 0 + j]"
    and "http (Suc 0 + j) = Raises"
    by (simp_all add: fails_at_def)
  from fetch_loop_fails_at[OF this assms(2), of process "[]"] show ?thesis
    by (simp add: fetched_def)
qed

text \<open>
  C2, as the code has it. A read whose cache test fails (the snapshot is empty or its age
  has reached the TTL) and whose re-fetch raises at the request for page \<open>j + 1\<close>, after
  \<open>j\<close> full pages, returns the items of those \<open>j\<close> pages, nothing when the first request
  raises, and stores exactly that list as the snapshot of the partition under the time of
  the read. The failure does not reach the caller: the result is a list in every case.
  This holds for posts, pages and media alike.
\<close>

theorem fetch_failure_serves_partial:
  assumes "j < max_pages"
  shows "(fails_at hp per_page j \<and> \<not> (docs (POSTS_CACHE s) \<noteq> [] \<and> now - ts (POSTS_CACHE s) < TTL) \<longrightarrow>
           fetch_wp_posts hp now per_page max_pages s =
             (fetched process_post hp j,
              s\<lparr>POSTS_CACHE := \<lparr>ts = now, docs = fetched process_post hp j\<rparr>\<rparr>)) \<and>
         (fails_at hp per_page j \<and> \<not> (docs (PAGES_CACHE s) \<noteq> [] \<and> now - ts (PAGES_CACHE s) < TTL) \<longrightarrow>
           fetch_wp_pages hp now per_page max_pages s =
             (fetched process_post hp j,
              s\<lparr>PAGES_CACHE := \<lparr>ts = now, docs = fetched process_post hp j\<rparr>\<rparr>)) \<and>
         (fails_at hm per_page j \<and> \<not> (imgs (MEDIA_CACHE s) \<noteq> [] \<and> now - media_ts (MEDIA_CACHE s) < TTL) \<longrightarrow>
           fetch_wp_media hm now per_page max_pages s =
             (fetched process_media hm j,
              s\<lparr>MEDIA_CACHE := \<lparr>media_ts = now, imgs = fetched process_media hm j\<rparr>\<rparr>))"
proof (intro conjI impI)
  assume "fails_at hp per_page j \<and> \<not> (docs (POSTS_CACHE s) \<noteq> [] \<and> now - ts (POSTS_CACHE s) < TTL)"
  then show "fetch_wp_posts hp now per_page max_pages s =
             (fetched process_post hp j,
              s\<lparr>POSTS_CACHE := \<lparr>ts = now, docs = fetched process_post hp j\<rparr>\<rparr>)"
    using fetch_loop_from_1[OF _ assms, of hp per_page process_post]
    by (auto simp: fetch_wp_posts_def Let_def)
next
  assume "fails_at hp per_page j \<and> \<not> (docs (PAGES_CACHE s) \<noteq> [] \<and> now - ts (PAGES_CACHE s) < TTL)"
  then show "fetch_wp_pages hp now per_page max_pages s =
             (fetched process_post hp j,
              s\<lparr>PAGES_CACHE := \<lparr>ts = now, docs = fetched process_post hp j\<rparr>\<rparr>)"
    using fetch_loop_from_1[OF _ assms, of hp per_page process_post]
    by (auto simp: fetch_wp_pages_def Let_def)
next
  assume "fails_at hm per_page j \<and> \<not> (imgs (MEDIA_CACHE s) \<noteq> [] \<and> now - media_ts (MEDIA_CACHE s) < TTL)"
  then show "fetch_wp_media hm now per_page max_pages s =
             (fetched process_media hm j,
              s\<lparr>MEDIA_CACHE := \<lparr>media_ts = now, imgs = fetched process_media hm j\<rparr>\<rparr>)"
    using fetch_loop_from_1[OF _ assms, of hm per_page process_media]
    by (auto simp: fetch_wp_media_def Let_def)
qed

theorem fetch_failure_serves_partial_witness:
  "(0 :: nat) < 20 \<and>
   fails_at (unreachable_source :: nat \<Rightarrow> wp_item response) 50 0 \<and>
   fails_at (unreachable_source :: nat \<Rightarrow> wp_media response) 50 0 \<and>
   \<not> (docs (POSTS_CACHE stale_state) \<noteq> [] \<and> 1000 - ts (POSTS_CACHE stale_state) < TTL) \<and>
   \<not> (docs (PAGES_CACHE stale_state) \<noteq> [] \<and> 1000 - ts (PAGES_CACHE stale_state) < TTL) \<and>
   \<not> (imgs (MEDIA_CACHE stale_state) \<noteq> [] \<and> 1000 - media_ts (MEDIA_CACHE stale_state) < TTL) \<and>
   fetch_wp_posts unreachable_source 1000 50 20 stale_state =
     ([], stale_state\<lparr>POSTS_CACHE := \<lparr>ts = 1000, docs = []\<rparr>\<rparr>) \<and>
   fetch_wp_pages unreachable_source 1000 50 20 stale_state =
     ([], stale_state\<lparr>PAGES_CACHE := \<lparr>ts = 1000, docs = []\<rparr>\<rparr>) \<and>
   fetch_wp_media unreachable_source 1000 50 20 stale_state =
     ([], stale_state\<lparr>MEDIA_CACHE := \<lparr>media_ts = 1000, imgs = []\<rparr>\<rparr>)"
proof -
  have n: "(0 :: nat) < 20" by simp
  have f1: "fails_at (unreachable_source :: nat \<Rightarrow> wp_item response) 50 0"
    by (simp add: fails_at_def unreachable_source_def)
  have f2: "fails_at (unreachable_source :: nat \<Rightarrow> wp_media response) 50 0"
    by (simp add: fails_at_def unreachable_source_def)
  have e1: "\<not> (docs (POSTS_CACHE stale_state) \<noteq> [] \<and> 1000 - ts (POSTS_CACHE stale_state) < TTL)"
    by (simp add: stale_state_def initial_state_def TTL_def)
  have e2: "\<not> (docs (PAGES_CACHE stale_state) \<noteq> [] \<and> 1000 - ts (PAGES_CACHE stale_state) < TTL)"
    by (simp add: stale_state_def initial_state_def)
  have e3: "\<not> (imgs (MEDIA_CACHE stale_state) \<noteq> [] \<and> 1000 - media_ts (MEDIA_CACHE stale_state) < TTL)"
    by (simp add: stale_state_def initial_state_def)
  have z1: "fetched process_post (unreachable_source :: nat \<Rightarrow> wp_item response) 0 = []"
    by (simp add: fetched_def)
  have z2: "fetched process_media (unreachable_source :: nat \<Rightarrow> wp_media response) 0 = []"
    by (simp add: fetched_def)
  from fetch_failure_serves_partial [OF n, of unreachable_source 50 stale_state 1000 unreachable_source]
    n f1 f2 e1 e2 e3
  show ?thesis unfolding z1 z2 by blast
qed

text \<open>
  C2, as the claim states it, fails. The cache of posts holds one document from time 0,
  the read comes at time 1000 and every request raises: the read returns the empty list
  and not the document, and the stored snapshot is empty afterwards.
\<close>

theorem fetch_failure_counterexample:
  "fst (fetch_wp_posts unreachable_source 1000 50 20 stale_state) = [] \<and>
   docs (POSTS_CACHE stale_state) = [old_doc] \<and>
   docs (POSTS_CACHE (snd (fetch_wp_posts unreachable_source 1000 50 20 stale_state))) = []"
  by (simp add: fetch_wp_posts_def stale_state_def initial_state_def TTL_def unreachable_source_def
      fetch_loop_raises Let_def)

section \<open>Chunking\<close>

lemma sub_ws_nl_no_space: "\<forall>c \<in> set t. \<not> isspace c \<Longrightarrow> sub_ws_nl t = t"
  by (induction t) (auto simp: last_nl_def)

lemma strip_no_space: "\<forall>c \<in> set w. \<not> isspace c \<Longrightarrow> strip w = w"
proof -
  assume a: "\<forall>c \<in> set w. \<not> isspace c"
  then have 1: "dropWhile isspace w = w" by (cases w) auto
  from a have "dropWhile isspace (rev w) = rev w" by (cases "rev w") auto
  with 1 show ?thesis by (simp add: strip_def lstrip_def rstrip_def)
qed

lemma not_space_97: "\<not> isspace 97" and not_space_98: "\<not> isspace 98"
  by (simp_all add: isspace_def)

lemma chunk_loop_no_space:
  assumes ns: "\<forall>c \<in> set t. \<not> isspace c" and mc: "0 < mc"
  shows "\<exists>cs. chunk_loop mc ov t i acc = Some (acc @ cs) \<and> concat cs = drop i t"
proof (induction "length t - i" arbitrary: i acc rule: less_induct)
  case less
  show ?case
  proof (cases "i < length t")
    case False
    then show ?thesis by (subst chunk_loop.simps) simp
  next
    case True
    let ?e = "min (i + mc) (length t)"
    let ?w = "slice t i ?e"
    from True mc have e: "i < ?e" by simp
    have "set ?w \<subseteq> set t"
      unfolding slice_def by (meson set_take_subset set_drop_subset subset_trans)
    with ns have "strip ?w = ?w" by (intro strip_no_space) blast
    moreover have ne: "?w \<noteq> []" using e True by (simp add: slice_def)
    moreover have "max (?e - ov) ?e = ?e" by simp
    moreover have "\<not> ?e \<le> i" using e by linarith
    ultimately have unf: "chunk_loop mc ov t i acc = chunk_loop mc ov t ?e (acc @ [?w])"
      using True by (subst chunk_loop.simps) (simp only: Let_def if_True if_False not_False_eq_True)
    have "length t - ?e < length t - i" using e True by simp
    from less[OF this, of "acc @ [?w]"] obtain cs where
      cs: "chunk_loop mc ov t ?e (acc @ [?w]) = Some ((acc @ [?w]) @ cs)" "concat cs = drop ?e t"
      by blast
    have "?w @ drop ?e t = drop i t"
    proof -
      have "drop ?e t = drop (?e - i) (drop i t)" using e by simp
      then show ?thesis unfolding slice_def by (metis append_take_drop_id)
    qed
    with cs unf show ?thesis by (intro exI[of _ "?w # cs"]) simp
  qed
qed

lemma chunk_text_partition:
  assumes "\<forall>c \<in> set t. \<not> isspace c" and "0 < mc"
  shows "\<exists>cs. chunk_text t mc ov = Some cs \<and> concat cs = t"
  using chunk_loop_no_space[OF assms, of ov 0 "[]"] assms(1)
  by (simp add: chunk_text_def sub_ws_nl_no_space)

lemma chunk_loop_total:
  assumes mc: "0 < mc"
  shows "\<exists>cs. chunk_loop mc ov t i acc = Some cs"
proof (induction "length t - i" arbitrary: i acc rule: less_induct)
  case less
  show ?case
  proof (cases "i < length t")
    case False
    then show ?thesis by (subst chunk_loop.simps) simp
  next
    case True
    let ?e = "min (i + mc) (length t)"
    from True mc have e: "i < ?e" by simp
    have m: "max (?e - ov) ?e = ?e" by simp
    have n: "\<not> ?e \<le> i" using e by linarith
    have "length t - ?e < length t - i" using e True by simp
    from less[OF this] True show ?thesis
      by (subst chunk_loop.simps) (simp only: Let_def m n if_True if_False)
  qed
qed

text \<open>
  C3. \<open>chunk_text\<close> with the defaults \<open>max_chars = 1200\<close> and \<open>overlap = 120\<close> on a
  text of 1200 letters \<^verbatim>\<open>a\<close> and 100 letters \<^verbatim>\<open>b\<close>: the second chunk starts at position
  1200, where the first one ends, and not 120 characters before it. The windows do not
  overlap.
\<close>

theorem chunk_text_no_overlap:
  "chunk_text (replicate 1200 97 @ replicate 100 98) 1200 120 =
     Some [replicate 1200 97, replicate 100 98]"
proof -
  let ?t = "replicate 1200 97 @ replicate 100 (98::nat)"
  have ns: "\<forall>c \<in> set ?t. \<not> isspace c" by (auto simp: isspace_def)
  have s1: "strip (replicate 1200 97) = replicate 1200 97"
    by (rule strip_no_space) (simp add: isspace_def)
  have s2: "strip (replicate 100 98) = replicate 100 98"
    by (rule strip_no_space) (simp add: isspace_def)
  have l: "length ?t = 1300" by simp
  have w1: "slice ?t 0 1200 = replicate 1200 97" by (simp add: slice_def)
  have w2: "slice ?t 1200 1300 = replicate 100 98" by (simp add: slice_def)
  have step3: "chunk_loop 1200 120 ?t 1300 [replicate 1200 97, replicate 100 98] =
        Some [replicate 1200 97, replicate 100 98]"
    by (subst chunk_loop.simps) (simp only: l, simp)
  have step2: "chunk_loop 1200 120 ?t 1200 [replicate 1200 97] =
        chunk_loop 1200 120 ?t 1300 [replicate 1200 97, replicate 100 98]"
    by (subst chunk_loop.simps) (simp only: l Let_def, simp add: w2 s2)
  have step1: "chunk_loop 1200 120 ?t 0 [] = chunk_loop 1200 120 ?t 1200 [replicate 1200 97]"
    by (subst chunk_loop.simps) (simp only: l Let_def, simp add: w1 s1)
  show ?thesis
    unfolding chunk_text_def sub_ws_nl_no_space[OF ns] step1 step2 step3 ..
qed

section \<open>Search: the reranker is down\<close>




lemma rank_indices_perm:
  "distinct (rank_indices scores)" "set (rank_indices scores) = {0..<length scores}"
  "length (rank_indices scores) = length scores"
  by (simp_all add: rank_indices_def)

lemma length_lexical_scores: "length (lexical_scores C query ds) = length ds"
  by (simp add: lexical_scores_def)

lemma search_docs_fallback:
  assumes rr: "rerank_search E = rerank_down"
    and g: "get_all_docs E (log_event SearchDocs s) = (all_docs, s1)"
  shows "fst (search_docs C E query k s) =
         map (\<lambda>i. all_docs ! i) (take k (rank_indices (lexical_scores C query all_docs)))"
proof (cases "all_docs = []")
  case True
  then show ?thesis using g
    by (simp add: search_docs_def lexical_scores_def rank_indices_def)
next
  case False
  let ?r = "rank_indices (lexical_scores C query all_docs)"
  let ?M = "max (k * 5) k"
  let ?picked = "map (\<lambda>i. all_docs ! i) (take (min ?M (length all_docs)) ?r)"
  let ?cands = "if ?picked \<noteq> [] then ?picked else take ?M all_docs"
  have sd: "fst (search_docs C E query k s) = take k ?cands"
    using g False rr
    by (simp add: search_docs_def Let_def lexical_scores_def rerank_down_def)
  have len: "length ?r = length all_docs" by (simp add: rank_indices_perm length_lexical_scores)
  have kM: "k \<le> ?M" by simp
  show ?thesis
  proof (cases "?picked = []")
    case True
    then have "take (min ?M (length all_docs)) ?r = []" by simp
    then have "min ?M (length all_docs) = 0 \<or> ?r = []" by simp
    moreover from len \<open>all_docs \<noteq> []\<close> have "?r \<noteq> []" by auto
    ultimately have "min ?M (length all_docs) = 0" by blast
    with \<open>all_docs \<noteq> []\<close> have "?M = 0" by (simp add: min_def split: if_splits)
    then have "k = 0" by simp
    with sd show ?thesis by simp
  next
    case False
    have "take k ?picked = map (\<lambda>i. all_docs ! i) (take k (take (min ?M (length all_docs)) ?r))"
      by (simp add: take_map)
    also have "take k (take (min ?M (length all_docs)) ?r) = take (min k (length all_docs)) ?r"
      using kM by (simp add: min_def)
    also have "\<dots> = take k ?r" using len by (simp add: min_def)
    finally show ?thesis using sd False by simp
  qed
qed

lemma demo_all_docs:
  "fst (get_all_docs demo_env (log_event SearchDocs demo_state)) = [old_doc]"
  by (simp add: get_all_docs_def fetch_wp_posts_def fetch_wp_pages_def demo_env_def demo_state_def
      initial_state_def log_event_def TTL_def fetch_loop_raises unreachable_source_def Let_def)



section \<open>The compose pipeline, branch by branch\<close>

lemma persist_page_result:
  assumes "persist_page C E ck title art bc pr tr base s = (r, s')"
  shows "r = \<lparr>res_id = token_urlsafe E, res_title = title, res_trace_id = tr\<rparr>"
    and "PAGES s' (token_urlsafe E) =
           Some \<lparr>page_title = title,
                 html = build_fullpage_html C title art bc pr tr (token_urlsafe E) base,
                 page_ts = t_save E\<rparr>"
    and "ANSWER_CACHE s' ck = Some \<lparr>page_id = token_urlsafe E, answer_ts = t_memo E\<rparr>"
    and "LOG s' = LOG s"
  using assms
  by (auto simp: persist_page_def save_page_def cleanup_pages_def Let_def)

lemma fallback_page_result:
  assumes "fallback_page C E plan ck bc pr tr base s = (x, s')"
  shows "x = Inr \<lparr>res_id = token_urlsafe E, res_title = plan_title plan, res_trace_id = tr\<rparr> \<and>
         PAGES s' (token_urlsafe E) =
           Some \<lparr>page_title = plan_title plan,
                 html = build_fullpage_html C (plan_title plan)
                          (sanitize_html C (render_article plan [] bc False [])) bc pr tr
                          (token_urlsafe E) base,
                 page_ts = t_save E\<rparr> \<and>
         ANSWER_CACHE s' ck = Some \<lparr>page_id = token_urlsafe E, answer_ts = t_memo E\<rparr> \<and>
         LOG s' = LOG s"
proof -
  let ?art = "linkify_citations (sanitize_html C (render_article plan [] bc False [])) ([] :: citation list)"
  obtain r t where p: "persist_page C E ck (plan_title plan) ?art bc pr tr base s = (r, t)"
    by (cases "persist_page C E ck (plan_title plan) ?art bc pr tr base s")
  with assms have x: "x = Inr r" "s' = t" by (simp_all add: fallback_page_def Let_def)
  have a: "?art = sanitize_html C (render_article plan [] bc False [])"
    by (simp add: linkify_citations_def)
  from persist_page_result[OF p] x a show ?thesis by simp
qed

lemma make_sources_ne: "doc_hits \<noteq> [] \<Longrightarrow> make_sources doc_hits \<noteq> []"
  by (simp add: make_sources_def FINAL_DOCS_def)

lemma plan_or_passthrough_ok:
  assumes "sources \<noteq> []"
  shows "\<exists>p. plan_or_passthrough C E prompt sources = Inr p"
  using assms by (cases sources) (auto simp: plan_or_passthrough_def split: sum.splits)

lemma fetch_LOG:
  "LOG (snd (fetch_wp_posts h now pp mp s)) = LOG s"
  "LOG (snd (fetch_wp_pages h now pp mp s)) = LOG s"
  "LOG (snd (fetch_wp_media hm now pp mp s)) = LOG s"
  by (simp_all add: fetch_wp_posts_def fetch_wp_pages_def fetch_wp_media_def Let_def)

lemma select_images_LOG:
  "\<exists>l. LOG (snd (select_images C E q hits s)) = LOG s @ PostAttachments # l"
  by (simp add: select_images_def Let_def split_beta fetch_LOG log_event_def)

lemma full_synthesis_eq:
  assumes "plan_or_passthrough C E (build_planner_prompt q (make_sources hits) layout ic)
             (make_sources hits) = Inr plan"
  shows "full_synthesis C E q layout ic bc pr base tr ck hits s =
         (Inr (fst (persist_page C E ck
                 (if plan_title plan \<noteq> [] then plan_title plan else lit ''Article'')
                 (linkify_citations
                    (sanitize_html C
                       (render_article plan (make_citations C (make_sources hits)) bc ic
                          (fst (select_images C E q hits s))))
                    (make_citations C (make_sources hits)))
                 bc pr tr base (log_event CoGenerate (snd (select_images C E q hits s))))),
          snd (persist_page C E ck
                 (if plan_title plan \<noteq> [] then plan_title plan else lit ''Article'')
                 (linkify_citations
                    (sanitize_html C
                       (render_article plan (make_citations C (make_sources hits)) bc ic
                          (fst (select_images C E q hits s))))
                    (make_citations C (make_sources hits)))
                 bc pr tr base (log_event CoGenerate (snd (select_images C E q hits s)))))"
  using assms by (simp add: full_synthesis_def Let_def split_beta)

lemma full_synthesis_result:
  assumes p: "plan_or_passthrough C E (build_planner_prompt q (make_sources hits) layout ic)
             (make_sources hits) = Inr plan"
    and f: "full_synthesis C E q layout ic bc pr base tr ck hits s = (x, s')"
  shows "x = Inr \<lparr>res_id = token_urlsafe E,
                  res_title = (if plan_title plan \<noteq> [] then plan_title plan else lit ''Article''),
                  res_trace_id = tr\<rparr> \<and>
         PAGES s' (token_urlsafe E) =
           Some \<lparr>page_title = (if plan_title plan \<noteq> [] then plan_title plan else lit ''Article''),
                 html = build_fullpage_html C
                          (if plan_title plan \<noteq> [] then plan_title plan else lit ''Article'')
                          (linkify_citations
                             (sanitize_html C
                                (render_article plan (make_citations C (make_sources hits)) bc ic
                                   (fst (select_images C E q hits s))))
                             (make_citations C (make_sources hits)))
                          bc pr tr (token_urlsafe E) base,
                 page_ts = t_save E\<rparr> \<and>
         ANSWER_CACHE s' ck = Some \<lparr>page_id = token_urlsafe E, answer_ts = t_memo E\<rparr> \<and>
         (\<exists>l. LOG s' = LOG s @ PostAttachments # l @ [CoGenerate])"
proof -
  define title where "title = (if plan_title plan \<noteq> [] then plan_title plan else lit ''Article'')"
  define art where "art = linkify_citations
                    (sanitize_html C
                       (render_article plan (make_citations C (make_sources hits)) bc ic
                          (fst (select_images C E q hits s))))
                    (make_citations C (make_sources hits))"
  define s2 where "s2 = log_event CoGenerate (snd (select_images C E q hits s))"
  obtain r t where pp: "persist_page C E ck title art bc pr tr base s2 = (r, t)"
    by (cases "persist_page C E ck title art bc pr tr base s2")
  from full_synthesis_eq[OF p, of bc pr base tr ck s] f pp
  have x: "x = Inr r" "s' = t"
    unfolding title_def art_def s2_def by simp_all
  obtain l where "LOG (snd (select_images C E q hits s)) = LOG s @ PostAttachments # l"
    using select_images_LOG by blast
  then have lg: "LOG t = LOG s @ PostAttachments # l @ [CoGenerate]"
    using persist_page_result(4)[OF pp] by (simp add: s2_def log_event_def)
  show ?thesis
    using persist_page_result(1,2,3)[OF pp] x lg
    unfolding title_def art_def by blast
qed

lemma compose_hit:
  assumes "memo_lookup (cleanup_answers (t_answers E) s0) (cache_key C q layout ic bc pr) = Some (pid, title)"
  shows "compose_answer_page C E q layout ic bc pr base s0 =
         (Inr \<lparr>res_id = pid, res_title = title, res_trace_id = trace_id_for C q\<rparr>,
          cleanup_answers (t_answers E) s0)"
  using assms by (simp add: compose_answer_page_def Let_def)

lemma get_all_docs_LOG: "LOG (snd (get_all_docs E s)) = LOG s"
  by (simp add: get_all_docs_def split_beta fetch_LOG)

lemma search_docs_LOG:
  "\<exists>l. LOG (snd (search_docs C E q k s)) = LOG s @ SearchDocs # l"
proof -
  have g: "LOG (snd (get_all_docs E (log_event SearchDocs s))) = LOG s @ [SearchDocs]"
    by (simp add: get_all_docs_LOG log_event_def)
  show ?thesis
  proof (cases "fst (get_all_docs E (log_event SearchDocs s)) = []")
    case True
    then show ?thesis using g by (simp add: search_docs_def split_beta)
  next
    case False
    then have "LOG (snd (search_docs C E q k s)) = LOG s @ [SearchDocs, Bm25Rank, CoRerank]"
      using g
      by (simp add: search_docs_def split_beta Let_def log_event_def split: rerank_outcome.splits)
    then show ?thesis by simp
  qed
qed

lemma compose_miss:
  assumes m: "memo_lookup (cleanup_answers (t_answers E) s0) (cache_key C q layout ic bc pr) = None"
  shows "compose_answer_page C E q layout ic bc pr base s0 =
         (let s = cleanup_answers (t_answers E) s0;
              ck = cache_key C q layout ic bc pr;
              tr = trace_id_for C q;
              doc_hits = fst (search_docs C E q FINAL_DOCS s);
              s1 = snd (search_docs C E q FINAL_DOCS s)
          in if doc_hits = [] then fallback_page C E no_sources_plan ck bc pr tr base s1
             else if top_score_of (rerank_probe E q (map text_chunk doc_hits) 1) < RERANK_THRESHOLD
             then fallback_page C E low_confidence_plan ck bc pr tr base (log_event CoRerank s1)
             else full_synthesis C E q layout ic bc pr base tr ck doc_hits (log_event CoRerank s1))"
proof -
  have t: "RERANK_THRESHOLD \<noteq> 0" by (simp add: RERANK_THRESHOLD_def)
  show ?thesis
    unfolding compose_answer_page_def Let_def m option.case split_beta
    using t by simp
qed

lemma compose_miss_result:
  assumes m: "memo_lookup (cleanup_answers (t_answers E) s0) (cache_key C q layout ic bc pr) = None"
    and c: "compose_answer_page C E q layout ic bc pr base s0 = (x, s')"
  shows "\<exists>title art. 
           x = Inr \<lparr>res_id = token_urlsafe E, res_title = title, res_trace_id = trace_id_for C q\<rparr> \<and>
           PAGES s' (token_urlsafe E) =
             Some \<lparr>page_title = title,
                   html = build_fullpage_html C title art bc pr (trace_id_for C q)
                            (token_urlsafe E) base,
                   page_ts = t_save E\<rparr> \<and>
           ANSWER_CACHE s' (cache_key C q layout ic bc pr) =
             Some \<lparr>page_id = token_urlsafe E, answer_ts = t_memo E\<rparr> \<and>
           (\<exists>l. LOG s' = LOG s0 @ SearchDocs # l)"
proof -
  define s where "s = cleanup_answers (t_answers E) s0"
  define ck where "ck = cache_key C q layout ic bc pr"
  define tr where "tr = trace_id_for C q"
  define doc_hits where "doc_hits = fst (search_docs C E q FINAL_DOCS s)"
  define s1 where "s1 = snd (search_docs C E q FINAL_DOCS s)"
  obtain l where "LOG s1 = LOG s @ SearchDocs # l"
    unfolding s1_def using search_docs_LOG by blast
  then have l: "LOG s1 = LOG s0 @ SearchDocs # l" by (simp add: s_def cleanup_answers_def)
  have cm: "(x, s') =
     (if doc_hits = [] then fallback_page C E no_sources_plan ck bc pr tr base s1
      else if top_score_of (rerank_probe E q (map text_chunk doc_hits) 1) < RERANK_THRESHOLD
      then fallback_page C E low_confidence_plan ck bc pr tr base (log_event CoRerank s1)
      else full_synthesis C E q layout ic bc pr base tr ck doc_hits (log_event CoRerank s1))"
    using compose_miss[OF m, of base] c
    by (simp only: Let_def s_def ck_def tr_def doc_hits_def s1_def)
  consider (a) "doc_hits = []"
    | (b) "doc_hits \<noteq> []" "top_score_of (rerank_probe E q (map text_chunk doc_hits) 1) < RERANK_THRESHOLD"
    | (c) "doc_hits \<noteq> []" "\<not> top_score_of (rerank_probe E q (map text_chunk doc_hits) 1) < RERANK_THRESHOLD"
    by blast
  then have "\<exists>title art. 
           x = Inr \<lparr>res_id = token_urlsafe E, res_title = title, res_trace_id = tr\<rparr> \<and>
           PAGES s' (token_urlsafe E) =
             Some \<lparr>page_title = title,
                   html = build_fullpage_html C title art bc pr tr (token_urlsafe E) base,
                   page_ts = t_save E\<rparr> \<and>
           ANSWER_CACHE s' ck = Some \<lparr>page_id = token_urlsafe E, answer_ts = t_memo E\<rparr> \<and>
           (\<exists>l. LOG s' = LOG s0 @ SearchDocs # l)"
  proof cases
    case a
    with cm have "fallback_page C E no_sources_plan ck bc pr tr base s1 = (x, s')" by simp
    from fallback_page_result[OF this] l show ?thesis by auto
  next
    case b
    with cm have "fallback_page C E low_confidence_plan ck bc pr tr base (log_event CoRerank s1) = (x, s')"
      by simp
    from fallback_page_result[OF this] l show ?thesis by (auto simp: log_event_def)
  next
    case c2: c
    with cm have f: "full_synthesis C E q layout ic bc pr base tr ck doc_hits (log_event CoRerank s1) = (x, s')"
      by simp
    from plan_or_passthrough_ok[OF make_sources_ne[OF c2(1)]] obtain plan where
      p: "plan_or_passthrough C E (build_planner_prompt q (make_sources doc_hits) layout ic)
             (make_sources doc_hits) = Inr plan" by blast
    from full_synthesis_result[OF p f] obtain l' where
      r: "x = Inr \<lparr>res_id = token_urlsafe E,
                  res_title = (if plan_title plan \<noteq> [] then plan_title plan else lit ''Article''),
                  res_trace_id = tr\<rparr>"
      and pg: "PAGES s' (token_urlsafe E) =
           Some \<lparr>page_title = (if plan_title plan \<noteq> [] then plan_title plan else lit ''Article''),
                 html = build_fullpage_html C
                          (if plan_title plan \<noteq> [] then plan_title plan else lit ''Article'')
                          (linkify_citations
                             (sanitize_html C
                                (render_article plan (make_citations C (make_sources doc_hits)) bc ic
                                   (fst (select_images C E q doc_hits (log_event CoRerank s1)))))
                             (make_citations C (make_sources doc_hits)))
                          bc pr tr (token_urlsafe E) base,
                 page_ts = t_save E\<rparr>"
      and ac: "ANSWER_CACHE s' ck = Some \<lparr>page_id = token_urlsafe E, answer_ts = t_memo E\<rparr>"
      and lg: "LOG s' = LOG (log_event CoRerank s1) @ PostAttachments # l' @ [CoGenerate]"
      by blast
    from lg l have "\<exists>l. LOG s' = LOG s0 @ SearchDocs # l" by (simp add: log_event_def)
    with r pg ac show ?thesis by blast
  qed
  then show ?thesis unfolding tr_def ck_def .
qed

section \<open>Citation linking\<close>

subsection \<open>Decimal numerals and markers\<close>

lemma str_nat_digits: "\<forall>c \<in> set (str_nat n). digit c"
proof (induction n rule: str_nat.induct)
  case (1 n)
  show ?case
  proof (cases "n < 10")
    case True
    then show ?thesis by (subst str_nat.simps) (simp add: digit_def)
  next
    case False
    have "n mod 10 < 10" by simp
    then have "digit (48 + n mod 10)" unfolding digit_def by linarith
    with False 1 show ?thesis by (subst str_nat.simps) simp
  qed
qed

lemma str_nat_ne: "str_nat n \<noteq> []"
  by (subst str_nat.simps) simp

lemma str_nat_inj: "str_nat n = str_nat m \<Longrightarrow> n = m"
proof (induction n arbitrary: m rule: str_nat.induct)
  case (1 n)
  show ?case
  proof (cases "n < 10")
    case n: True
    show ?thesis
    proof (cases "m < 10")
      case True
      with n 1(2) show ?thesis by (simp add: str_nat.simps)
    next
      case False
      with n 1(2) have "[48 + n] = str_nat (m div 10) @ [48 + m mod 10]"
        by (simp add: str_nat.simps[of n] str_nat.simps[of m])
      then show ?thesis using str_nat_ne[of "m div 10"] by (cases "str_nat (m div 10)") auto
    qed
  next
    case n: False
    show ?thesis
    proof (cases "m < 10")
      case True
      with n 1(2) have "str_nat (n div 10) @ [48 + n mod 10] = [48 + m]"
        by (simp add: str_nat.simps[of n] str_nat.simps[of m])
      then show ?thesis using str_nat_ne[of "n div 10"] by (cases "str_nat (n div 10)") auto
    next
      case False
      with n 1(2) have "str_nat (n div 10) @ [48 + n mod 10] = str_nat (m div 10) @ [48 + m mod 10]"
        by (simp add: str_nat.simps[of n] str_nat.simps[of m])
      then have a: "str_nat (n div 10) = str_nat (m div 10)" and b: "n mod 10 = m mod 10" by auto
      from 1(1)[OF n a] have "n div 10 = m div 10" .
      with b show ?thesis by (metis div_mult_mod_eq)
    qed
  qed
qed


lemma digit_not_bracket: "digit c \<Longrightarrow> c \<noteq> 91 \<and> c \<noteq> 93 \<and> c \<noteq> 60"
  by (auto simp: digit_def)

lemma marker_Cons: "marker i = 91 # str_nat i @ [93]"
  by (simp add: marker_def lit_def)

lemma marker_tail_no_open: "91 \<notin> set (str_nat i @ [93])"
  using str_nat_digits[of i] digit_not_bracket by auto

lemma marker_tail_no_lt: "60 \<notin> set (str_nat i @ [93])"
  using str_nat_digits[of i] digit_not_bracket by auto

lemma cite_anchor_no_open: "91 \<notin> set (cite_anchor i)"
  using str_nat_digits[of i] digit_not_bracket by (auto simp: cite_anchor_def lit_def)

lemma cite_anchor_Cons: "cite_anchor i = 60 # tl (cite_anchor i)"
  by (simp add: cite_anchor_def lit_def)

lemma find_append_cases:
  "find P (xs @ ys) = (case find P xs of Some x \<Rightarrow> Some x | None \<Rightarrow> find P ys)"
  by (induction xs) auto

lemma replace_scan_skip:
  "91 \<notin> set a \<Longrightarrow> replace_scan (91 # m) new (a @ X) = a @ replace_scan (91 # m) new X"
  by (induction a) auto

lemma find_marker_not_open:
  "c \<noteq> 91 \<Longrightarrow> find (\<lambda>i. prefix (marker i) (c # cs)) js = None"
  by (induction js) (auto simp: marker_Cons)

lemma rewrite_skip:
  "91 \<notin> set w \<Longrightarrow> rewrite_markers N (w @ X) = w @ rewrite_markers N X"
  by (induction w) (auto simp: find_marker_not_open)

lemma rewrite_prefix_back:
  "91 \<notin> set w \<Longrightarrow> 60 \<notin> set w \<Longrightarrow> prefix w (rewrite_markers N cs) \<Longrightarrow> prefix w cs"
proof (induction w arbitrary: cs)
  case Nil
  then show ?case by simp
next
  case step: (Cons x w)
  from step.prems have x: "x \<noteq> 91" "x \<noteq> 60" and w: "91 \<notin> set w" "60 \<notin> set w" by auto
  show ?case
  proof (cases cs)
    case Nil
    with step.prems(3) show ?thesis by simp
  next
    case cs: (Cons c cs')
    show ?thesis
    proof (cases "find (\<lambda>i. prefix (marker i) (c # cs')) [1..<Suc N]")
      case None
      then have "rewrite_markers N cs = c # rewrite_markers N cs'" using cs by simp
      with step.prems(3) have "x = c" and "prefix w (rewrite_markers N cs')" by auto
      with step.IH[OF w, of cs'] cs show ?thesis by simp
    next
      case (Some i)
      then have "rewrite_markers N cs = cite_anchor i @ rewrite_markers N (drop (length (marker i) - 1) cs')"
        using cs by simp
      then have "rewrite_markers N cs = 60 # (tl (cite_anchor i) @ rewrite_markers N (drop (length (marker i) - 1) cs'))"
        using cite_anchor_Cons[of i] by (metis append_Cons)
      with step.prems(3) have "x = 60" by simp
      with x show ?thesis by simp
    qed
  qed
qed

lemma rewrite_step:
  "replace_scan (marker (Suc N)) (cite_anchor (Suc N)) (rewrite_markers N s) = rewrite_markers (Suc N) s"
proof (induction s rule: length_induct)
  case (1 s)
  let ?m = "marker (Suc N)" and ?a = "cite_anchor (Suc N)"
  let ?t = "str_nat (Suc N) @ [93]"
  have m: "?m = 91 # ?t" by (simp add: marker_Cons)
  show ?case
  proof (cases s)
    case Nil
    then show ?thesis by simp
  next
    case (Cons c cs)
    have IH: "\<And>r. length r \<le> length cs \<Longrightarrow>
      replace_scan ?m ?a (rewrite_markers N r) = rewrite_markers (Suc N) r"
      using 1 Cons by simp
    have upt: "[1..<Suc (Suc N)] = [1..<Suc N] @ [Suc N]" by simp
    show ?thesis
    proof (cases "find (\<lambda>i. prefix (marker i) (c # cs)) [1..<Suc N]")
      case (Some i)
      have L: "rewrite_markers N s = cite_anchor i @ rewrite_markers N (drop (length (marker i) - 1) cs)"
        using Some Cons by simp
      have R: "rewrite_markers (Suc N) s = cite_anchor i @ rewrite_markers (Suc N) (drop (length (marker i) - 1) cs)"
        using Some Cons by (simp only: rewrite_markers.simps upt find_append_cases option.simps)
      show ?thesis
        unfolding L R m using replace_scan_skip[OF cite_anchor_no_open] IH[of "drop (length (marker i) - 1) cs"]
        by (simp add: m)
    next
      case None
      have L: "rewrite_markers N s = c # rewrite_markers N cs"
        using None Cons by simp
      show ?thesis
      proof (cases "prefix ?m (c # cs)")
        case True
        then obtain X where c: "c = 91" and cs: "cs = ?t @ X"
          unfolding m by (auto simp: prefix_def)
        have dr: "drop (length ?m - 1) cs = X" using cs by (simp add: m)
        have R: "rewrite_markers (Suc N) s = ?a @ rewrite_markers (Suc N) X"
          using None True Cons dr
          by (simp only: rewrite_markers.simps upt find_append_cases option.simps find.simps if_True)
        have rw: "rewrite_markers N cs = ?t @ rewrite_markers N X"
          unfolding cs by (rule rewrite_skip[OF marker_tail_no_open])
        have "replace_scan ?m ?a (c # rewrite_markers N cs) =
              ?a @ replace_scan ?m ?a (drop (length ?m - 1) (rewrite_markers N cs))"
          unfolding rw c m by simp
        also have "drop (length ?m - 1) (rewrite_markers N cs) = rewrite_markers N X"
          unfolding rw by (simp add: m)
        also have "replace_scan ?m ?a (rewrite_markers N X) = rewrite_markers (Suc N) X"
          using IH[of X] cs by simp
        finally show ?thesis unfolding L R .
      next
        case False
        have R: "rewrite_markers (Suc N) s = c # rewrite_markers (Suc N) cs"
          using None False Cons
          by (simp only: rewrite_markers.simps upt find_append_cases option.simps find.simps if_False)
        have "\<not> prefix ?m (c # rewrite_markers N cs)"
        proof
          assume "prefix ?m (c # rewrite_markers N cs)"
          then have c: "c = 91" and p: "prefix ?t (rewrite_markers N cs)"
            unfolding m by auto
          from rewrite_prefix_back[OF marker_tail_no_open marker_tail_no_lt p]
          have "prefix ?t cs" .
          with c False show False unfolding m by simp
        qed
        then have "replace_scan ?m ?a (c # rewrite_markers N cs) =
              c # replace_scan ?m ?a (rewrite_markers N cs)" by simp
        also have "replace_scan ?m ?a (rewrite_markers N cs) = rewrite_markers (Suc N) cs"
          using IH[of cs] by simp
        finally show ?thesis unfolding L R .
      qed
    qed
  qed
qed

lemma rewrite_markers_0: "rewrite_markers 0 s = s"
  by (induction s) auto

lemma marker_ne: "marker i \<noteq> []"
  by (simp add: marker_Cons)

lemma fold_linkify:
  "fold (\<lambda>i out. py_replace out (marker i) (cite_anchor i)) [1..<Suc N] s = rewrite_markers N s"
proof (induction N)
  case 0
  then show ?case by (simp add: rewrite_markers_0)
next
  case (Suc N)
  have "[1..<Suc (Suc N)] = [1..<Suc N] @ [Suc N]" by simp
  then show ?case using Suc rewrite_step[of N s]
    by (simp only: fold_append o_apply fold.simps id_apply py_replace_def marker_ne if_False)
qed

lemma linkify_rewrite: "linkify_citations s cits = rewrite_markers (length cits) s"
proof (cases "cits = []")
  case True
  then show ?thesis by (simp add: linkify_citations_def rewrite_markers_0)
next
  case False
  then show ?thesis by (simp only: linkify_citations_def fold_linkify if_False)
qed

lemma marker_prefix_inside:
  assumes p: "prefix (marker i) (a @ 91 # X)" and a: "a \<noteq> []"
  shows "prefix (marker i) a"
proof -
  from p have "prefix (marker i) a \<or> (\<exists>us. marker i = a @ us \<and> prefix us (91 # X))"
    by (simp add: prefix_append)
  then show ?thesis
  proof
    assume "prefix (marker i) a" then show ?thesis .
  next
    assume "\<exists>us. marker i = a @ us \<and> prefix us (91 # X)"
    then obtain us where m: "marker i = a @ us" and u: "prefix us (91 # X)" by blast
    show ?thesis
    proof (cases us)
      case Nil
      with m show ?thesis by simp
    next
      case (Cons u us')
      with u have "u = 91" by simp
      from a obtain c a' where ca: "a = c # a'" by (cases a) auto
      with m Cons \<open>u = 91\<close> have "str_nat i @ [93] = a' @ 91 # us'"
        by (simp add: marker_Cons)
      then have "91 \<in> set (str_nat i @ [93])" by (metis in_set_conv_decomp)
      with marker_tail_no_open show ?thesis by blast
    qed
  qed
qed

lemma rewrite_append_open:
  "rewrite_markers N (a @ 91 # X) = rewrite_markers N a @ rewrite_markers N (91 # X)"
proof (induction a rule: length_induct)
  case (1 a)
  show ?case
  proof (cases a)
    case Nil
    then show ?thesis by simp
  next
    case (Cons c a')
    have eq: "\<And>i. prefix (marker i) ((c # a') @ 91 # X) = prefix (marker i) (c # a')"
    proof -
      fix i
      show "prefix (marker i) ((c # a') @ 91 # X) = prefix (marker i) (c # a')"
      proof
        assume "prefix (marker i) ((c # a') @ 91 # X)"
        then show "prefix (marker i) (c # a')" by (rule marker_prefix_inside) simp
      next
        assume "prefix (marker i) (c # a')"
        then show "prefix (marker i) ((c # a') @ 91 # X)" by (rule prefix_prefix)
      qed
    qed
    then have f: "find (\<lambda>i. prefix (marker i) (c # a' @ 91 # X)) [1..<Suc N] =
               find (\<lambda>i. prefix (marker i) (c # a')) [1..<Suc N]"
      by simp
    show ?thesis
    proof (cases "find (\<lambda>i. prefix (marker i) (c # a')) [1..<Suc N]")
      case None
      with f 1 Cons show ?thesis by simp
    next
      case (Some i)
      then have "prefix (marker i) (c # a')" by (auto simp: find_Some_iff)
      then have "length (marker i) \<le> length (c # a')" by (rule prefix_length_le)
      then have len: "length (marker i) - 1 \<le> length a'" by simp
      have "rewrite_markers N (a @ 91 # X) =
            cite_anchor i @ rewrite_markers N (drop (length (marker i) - 1) (a' @ 91 # X))"
        using Some f Cons by simp
      also have "drop (length (marker i) - 1) (a' @ 91 # X) = drop (length (marker i) - 1) a' @ 91 # X"
        using len by simp
      also have "rewrite_markers N (drop (length (marker i) - 1) a' @ 91 # X) =
            rewrite_markers N (drop (length (marker i) - 1) a') @ rewrite_markers N (91 # X)"
        using 1 Cons by simp
      finally show ?thesis using Some Cons by simp
    qed
  qed
qed

lemma digits_prefix_eq:
  "93 \<notin> set u \<Longrightarrow> 93 \<notin> set v \<Longrightarrow> prefix (u @ [93]) (v @ 93 # b) \<Longrightarrow> u = v"
proof (induction u arbitrary: v)
  case Nil
  then show ?case by (cases v) auto
next
  case (Cons x u)
  then show ?case by (cases v) auto
qed

lemma str_nat_no_close: "93 \<notin> set (str_nat n)"
  using str_nat_digits[of n] digit_not_bracket by auto

lemma marker_prefix_marker:
  assumes "prefix (marker i) (marker n @ b)"
  shows "i = n"
proof -
  from assms have "prefix (str_nat i @ [93]) (str_nat n @ 93 # b)"
    by (simp add: marker_Cons)
  then have "str_nat i = str_nat n"
    by (rule digits_prefix_eq[OF str_nat_no_close str_nat_no_close])
  then show ?thesis by (rule str_nat_inj)
qed

lemma rewrite_foreign_marker:
  assumes n: "N < n"
  shows "rewrite_markers N (marker n @ b) = marker n @ rewrite_markers N b"
proof -
  have "find (\<lambda>i. prefix (marker i) (marker n @ b)) [1..<Suc N] = None"
  proof -
    have "\<not> prefix (marker i) (marker n @ b)" if "i \<in> set [1..<Suc N]" for i
    proof
      assume "prefix (marker i) (marker n @ b)"
      then have "i = n" by (rule marker_prefix_marker)
      with that n show False by simp
    qed
    then show ?thesis unfolding find_None_iff by blast
  qed
  then have "rewrite_markers N (marker n @ b) = 91 # rewrite_markers N ((str_nat n @ [93]) @ b)"
    by (simp add: marker_Cons)
  also have "rewrite_markers N ((str_nat n @ [93]) @ b) = (str_nat n @ [93]) @ rewrite_markers N b"
    by (rule rewrite_skip[OF marker_tail_no_open])
  finally show ?thesis by (simp add: marker_Cons)
qed

lemma rewrite_keeps_marker:
  assumes n: "N < n"
  shows "rewrite_markers N (a @ marker n @ b) = rewrite_markers N a @ marker n @ rewrite_markers N b"
proof -
  have "rewrite_markers N (a @ marker n @ b) = rewrite_markers N a @ rewrite_markers N (marker n @ b)"
    using rewrite_append_open[of N a "str_nat n @ [93] @ b"] by (simp add: marker_Cons)
  then show ?thesis using rewrite_foreign_marker[OF n] by simp
qed

text \<open>
  C10. For every HTML string and every list of \<open>N\<close> citations, \<open>linkify_citations\<close>
  is the single pass \<open>rewrite_markers N\<close>: it writes the anchor of \<^verbatim>\<open>#src-i\<close> for the
  markers \<^verbatim>\<open>[1]\<close> to \<^verbatim>\<open>[N]\<close> and copies every other character. A marker \<^verbatim>\<open>[n]\<close> with
  \<open>n > N\<close> stays where it is, between the rewritten text before it and the rewritten text
  behind it. With no citation the output is the input.
\<close>

theorem linkify_citations_bound:
  fixes citations :: "'c list"
  shows "linkify_citations html_str citations = rewrite_markers (length citations) html_str \<and>
         (\<forall>n a b. length citations < n \<longrightarrow>
            linkify_citations (a @ marker n @ b) citations =
            linkify_citations a citations @ marker n @ linkify_citations b citations) \<and>
         linkify_citations html_str ([] :: 'c list) = html_str"
proof (intro conjI allI impI)
  show "linkify_citations html_str citations = rewrite_markers (length citations) html_str"
    by (rule linkify_rewrite)
next
  fix n a b
  assume "length citations < n"
  then show "linkify_citations (a @ marker n @ b) citations =
             linkify_citations a citations @ marker n @ linkify_citations b citations"
    by (simp only: linkify_rewrite rewrite_keeps_marker)
next
  show "linkify_citations html_str ([] :: 'c list) = html_str"
    by (simp add: linkify_citations_def)
qed

theorem linkify_citations_bound_witness:
  "length [()] < (2 :: nat) \<and>
   linkify_citations (lit ''x[1]y'' @ marker 2 @ lit ''z'') [()] =
   linkify_citations (lit ''x[1]y'') [()] @ marker 2 @ linkify_citations (lit ''z'') [()] \<and>
   linkify_citations (lit ''x[1]y'') [()] = lit ''x'' @ cite_anchor 1 @ lit ''y''"
proof -
  have h: "length [()] < (2 :: nat)" by simp
  have m: "marker (Suc 0) = [91, 49, 93]" by (simp add: marker_def lit_def str_nat.simps)
  have "linkify_citations (lit ''x[1]y'') [()] = rewrite_markers (length [()]) (lit ''x[1]y'')"
    using linkify_citations_bound [of "lit ''x[1]y''" "[()]"] by blast
  also have "\<dots> = lit ''x'' @ cite_anchor 1 @ lit ''y''"
    by (simp add: lit_def m)
  finally have e: "linkify_citations (lit ''x[1]y'') [()] = lit ''x'' @ cite_anchor 1 @ lit ''y''" .
  from linkify_citations_bound [of "lit ''x[1]y''" "[()]"] h
  have "linkify_citations (lit ''x[1]y'' @ marker 2 @ lit ''z'') [()] =
        linkify_citations (lit ''x[1]y'') [()] @ marker 2 @ linkify_citations (lit ''z'') [()]"
    by blast
  with h e show ?thesis by blast
qed

section \<open>The example call\<close>

lemma cache_key_norm:
  "normalize_question C q2 = normalize_question C q1 \<Longrightarrow>
   cache_key C q2 layout ic bc pr = cache_key C q1 layout ic bc pr"
  by (simp add: cache_key_def)

lemma memo_lookup_live:
  assumes "ANSWER_CACHE s ck = Some e" and "\<not> now - answer_ts e > ANSWER_TTL_SEC"
    and "PAGES s (page_id e) = Some p"
  shows "memo_lookup (cleanup_answers now s) ck = Some (page_id e, page_title p)"
  using assms by (simp add: memo_lookup_def cleanup_answers_def)

lemma cleanup_answers_frame:
  "LOG (cleanup_answers now s) = LOG s" "PAGES (cleanup_answers now s) = PAGES s"
  "POSTS_CACHE (cleanup_answers now s) = POSTS_CACHE s"
  "PAGES_CACHE (cleanup_answers now s) = PAGES_CACHE s"
  "MEDIA_CACHE (cleanup_answers now s) = MEDIA_CACHE s"
  by (simp_all add: cleanup_answers_def)

lemma demo_cleanup: "cleanup_answers now demo_state = demo_state"
  by (simp add: cleanup_answers_def demo_state_def initial_state_def)

lemma demo_miss:
  "memo_lookup (cleanup_answers (t_answers demo_env) demo_state)
     (cache_key demo_caps demo_question demo_layout True demo_brand demo_primary) = None"
  by (simp add: demo_cleanup) (simp add: memo_lookup_def demo_state_def initial_state_def)

lemma demo_hits:
  "fst (search_docs demo_caps demo_env demo_question FINAL_DOCS demo_state) = [old_doc]"
proof -
  have h: "rerank_search demo_env = rerank_down" by (simp add: demo_env_def)
  obtain s1 where g: "get_all_docs demo_env (log_event SearchDocs demo_state) = ([old_doc], s1)"
    using demo_all_docs by (cases "get_all_docs demo_env (log_event SearchDocs demo_state)") simp
  have r: "rank_indices (lexical_scores demo_caps demo_question [old_doc]) = [0]"
    by (simp add: rank_indices_def lexical_scores_def)
  from search_docs_fallback[OF h g, of demo_caps demo_question FINAL_DOCS] show ?thesis
    by (simp add: r FINAL_DOCS_def)
qed

lemma demo_probe:
  "top_score_of (rerank_probe demo_env query documents n) = 1"
  by (simp add: demo_env_def rerank_down_def top_score_of_def)

lemma demo_plan:
  "plan_or_passthrough demo_caps demo_env prompt (make_sources [old_doc]) =
     Inr (passthrough_plan \<lparr>src_title = lit ''About'', src_url = lit ''https://agent42labs.com/about'',
                            src_text = lit ''We build agents.''\<rparr>)"
  by (simp add: plan_or_passthrough_def cohere_plan_def demo_env_def make_sources_def FINAL_DOCS_def
      old_doc_def lit_def)

lemma demo_compose:
  "fst (compose_answer_page demo_caps demo_env demo_question demo_layout True demo_brand demo_primary
          demo_base demo_state) =
   Inr \<lparr>res_id = lit ''Zx3kQ9w_aB-7Lm'', res_title = lit ''About'',
        res_trace_id = take 16 demo_question\<rparr>"
proof -
  let ?ck = "cache_key demo_caps demo_question demo_layout True demo_brand demo_primary"
  let ?tr = "trace_id_for demo_caps demo_question"
  let ?s1 = "log_event CoRerank (snd (search_docs demo_caps demo_env demo_question FINAL_DOCS demo_state))"
  have t: "\<not> (1 :: real) < RERANK_THRESHOLD" by (simp add: RERANK_THRESHOLD_def)
  have c: "compose_answer_page demo_caps demo_env demo_question demo_layout True demo_brand demo_primary
          demo_base demo_state =
        full_synthesis demo_caps demo_env demo_question demo_layout True demo_brand demo_primary
          demo_base ?tr ?ck [old_doc] ?s1"
    using compose_miss[OF demo_miss, of demo_base] t
    by (simp add: Let_def demo_cleanup demo_hits demo_probe)
  obtain x s' where f: "full_synthesis demo_caps demo_env demo_question demo_layout True demo_brand
          demo_primary demo_base ?tr ?ck [old_doc] ?s1 = (x, s')"
    by (cases "full_synthesis demo_caps demo_env demo_question demo_layout True demo_brand
          demo_primary demo_base ?tr ?ck [old_doc] ?s1")
  have a: "lit ''About'' \<noteq> []" by (simp add: lit_def)
  from full_synthesis_result[OF demo_plan f] have
    "x = Inr \<lparr>res_id = token_urlsafe demo_env, res_title = lit ''About'', res_trace_id = ?tr\<rparr>"
    using a by (simp add: passthrough_plan_def)
  with c f show ?thesis
    by (simp add: demo_env_def trace_id_for_def demo_caps_def)
qed

lemma demo_norm: "normalize_question demo_caps demo_question2 = normalize_question demo_caps demo_question"
  by (simp add: normalize_question_def demo_caps_def strip_def lstrip_def rstrip_def lit_def
      isspace_def demo_question_def demo_question2_def)

lemma demo_pair:
  "compose_answer_page demo_caps demo_env demo_question demo_layout True demo_brand demo_primary
     demo_base demo_state =
   (Inr \<lparr>res_id = lit ''Zx3kQ9w_aB-7Lm'', res_title = lit ''About'', res_trace_id = take 16 demo_question\<rparr>,
    snd (compose_answer_page demo_caps demo_env demo_question demo_layout True demo_brand demo_primary
     demo_base demo_state))"
  using demo_compose by (simp add: prod_eq_iff)

lemma demo_page:
  "\<exists>art. PAGES (snd (compose_answer_page demo_caps demo_env demo_question demo_layout True demo_brand
             demo_primary demo_base demo_state)) (lit ''Zx3kQ9w_aB-7Lm'') =
     Some \<lparr>page_title = lit ''About'',
           html = build_fullpage_html demo_caps (lit ''About'') art demo_brand demo_primary
                    (take 16 demo_question) (lit ''Zx3kQ9w_aB-7Lm'') demo_base,
           page_ts = 1000\<rparr>"
proof -
  from compose_miss_result[OF demo_miss demo_pair] obtain title art where
    "lit ''About'' = title"
    "PAGES (snd (compose_answer_page demo_caps demo_env demo_question demo_layout True demo_brand
             demo_primary demo_base demo_state)) (token_urlsafe demo_env) =
       Some \<lparr>page_title = title,
             html = build_fullpage_html demo_caps title art demo_brand demo_primary
                      (trace_id_for demo_caps demo_question) (token_urlsafe demo_env) demo_base,
             page_ts = t_save demo_env\<rparr>"
    by auto
  then show ?thesis
    by (intro exI[of _ art]) (simp add: demo_env_def trace_id_for_def demo_caps_def)
qed


lemma env_low_search:
  "search_docs C demo_env_low q k s = search_docs C demo_env q k s"
proof -
  have "rerank_search demo_env_low = rerank_search demo_env"
    "http_posts demo_env_low = http_posts demo_env" "t_posts demo_env_low = t_posts demo_env"
    "http_pages demo_env_low = http_pages demo_env" "t_pages demo_env_low = t_pages demo_env"
    by (simp_all add: demo_env_low_def)
  then show ?thesis
    unfolding search_docs_def get_all_docs_def by (simp only:)
qed

lemma initial_miss:
  "memo_lookup (cleanup_answers now initial_state) ck = None"
  by (simp add: memo_lookup_def cleanup_answers_def initial_state_def)

lemma initial_no_docs:
  "fst (search_docs demo_caps demo_env demo_question FINAL_DOCS (cleanup_answers now initial_state)) = []"
  by (simp add: search_docs_def get_all_docs_def fetch_wp_posts_def fetch_wp_pages_def
      cleanup_answers_def initial_state_def log_event_def demo_env_def fetch_loop_raises
      unreachable_source_def Let_def)







section \<open>Frames of the requests\<close>

text \<open>
  What each stage leaves alone in the page store and in the answer cache, and what a
  sequence of requests keeps: a page found after an undisturbed sequence was there before
  it, and so was the memo entry that names it.
\<close>

lemma fetch_frame:
  "PAGES (snd (fetch_wp_posts h now pp mp s)) = PAGES s"
  "ANSWER_CACHE (snd (fetch_wp_posts h now pp mp s)) = ANSWER_CACHE s"
  "PAGES (snd (fetch_wp_pages h now pp mp s)) = PAGES s"
  "ANSWER_CACHE (snd (fetch_wp_pages h now pp mp s)) = ANSWER_CACHE s"
  "PAGES (snd (fetch_wp_media hm now pp mp s)) = PAGES s"
  "ANSWER_CACHE (snd (fetch_wp_media hm now pp mp s)) = ANSWER_CACHE s"
  by (simp_all add: fetch_wp_posts_def fetch_wp_pages_def fetch_wp_media_def Let_def)

lemma log_event_frame:
  "PAGES (log_event ev s) = PAGES s" "ANSWER_CACHE (log_event ev s) = ANSWER_CACHE s"
  by (simp_all add: log_event_def)

lemma get_all_docs_frame:
  "PAGES (snd (get_all_docs E s)) = PAGES s" "ANSWER_CACHE (snd (get_all_docs E s)) = ANSWER_CACHE s"
  by (simp_all add: get_all_docs_def split_beta fetch_frame)

lemma search_docs_frame:
  "PAGES (snd (search_docs C E q k s)) = PAGES s"
  "ANSWER_CACHE (snd (search_docs C E q k s)) = ANSWER_CACHE s"
proof -
  have g: "PAGES (snd (get_all_docs E (log_event SearchDocs s))) = PAGES s"
    "ANSWER_CACHE (snd (get_all_docs E (log_event SearchDocs s))) = ANSWER_CACHE s"
    by (simp_all add: get_all_docs_frame log_event_frame)
  show "PAGES (snd (search_docs C E q k s)) = PAGES s"
    using g(1)
    by (cases "fst (get_all_docs E (log_event SearchDocs s)) = []")
       (simp_all add: search_docs_def split_beta Let_def log_event_frame split: rerank_outcome.splits)
  show "ANSWER_CACHE (snd (search_docs C E q k s)) = ANSWER_CACHE s"
    using g(2)
    by (cases "fst (get_all_docs E (log_event SearchDocs s)) = []")
       (simp_all add: search_docs_def split_beta Let_def log_event_frame split: rerank_outcome.splits)
qed

lemma select_images_frame:
  "PAGES (snd (select_images C E q hits s)) = PAGES s"
  "ANSWER_CACHE (snd (select_images C E q hits s)) = ANSWER_CACHE s"
  by (simp_all add: select_images_def Let_def split_beta fetch_frame log_event_frame)

lemma persist_page_frame:
  assumes "persist_page C E ck title art bc pr tr base s = (r, s')"
  shows "\<And>k. k \<noteq> token_urlsafe E \<Longrightarrow> PAGES s' k = PAGES (cleanup_pages (t_cleanup_pages E) s) k"
    and "\<And>k. k \<noteq> ck \<Longrightarrow> ANSWER_CACHE s' k = ANSWER_CACHE s k"
  using assms
  by (auto simp: persist_page_def save_page_def cleanup_pages_def Let_def)

lemma cleanup_pages_sub: "PAGES (cleanup_pages now s) k = Some p \<Longrightarrow> PAGES s k = Some p"
  by (auto simp: cleanup_pages_def split: option.splits if_splits)

lemma cleanup_pages_frame: "ANSWER_CACHE (cleanup_pages now s) = ANSWER_CACHE s"
  by (simp add: cleanup_pages_def)

lemma cleanup_pages_cong:
  "PAGES s = PAGES t \<Longrightarrow> PAGES (cleanup_pages now s) = PAGES (cleanup_pages now t)"
  by (simp add: cleanup_pages_def)

lemma fallback_page_frame:
  assumes "fallback_page C E plan ck bc pr tr base s = (x, s')"
  shows "\<And>k. k \<noteq> token_urlsafe E \<Longrightarrow> PAGES s' k = PAGES (cleanup_pages (t_cleanup_pages E) s) k"
    and "\<And>k. k \<noteq> ck \<Longrightarrow> ANSWER_CACHE s' k = ANSWER_CACHE s k"
proof -
  let ?art = "linkify_citations (sanitize_html C (render_article plan [] bc False [])) ([] :: citation list)"
  obtain r t where p: "persist_page C E ck (plan_title plan) ?art bc pr tr base s = (r, t)"
    by (cases "persist_page C E ck (plan_title plan) ?art bc pr tr base s")
  with assms have x: "s' = t" by (simp add: fallback_page_def Let_def)
  show "\<And>k. k \<noteq> token_urlsafe E \<Longrightarrow> PAGES s' k = PAGES (cleanup_pages (t_cleanup_pages E) s) k"
    and "\<And>k. k \<noteq> ck \<Longrightarrow> ANSWER_CACHE s' k = ANSWER_CACHE s k"
    using persist_page_frame[OF p] x by simp_all
qed

lemma full_synthesis_frame:
  assumes ne: "hits \<noteq> []"
    and f: "full_synthesis C E q layout ic bc pr base tr ck hits s = (x, s')"
  shows "\<And>k. k \<noteq> token_urlsafe E \<Longrightarrow> PAGES s' k = PAGES (cleanup_pages (t_cleanup_pages E) s) k"
    and "\<And>k. k \<noteq> ck \<Longrightarrow> ANSWER_CACHE s' k = ANSWER_CACHE s k"
proof -
  from plan_or_passthrough_ok[OF make_sources_ne[OF ne]] obtain plan where
    p: "plan_or_passthrough C E (build_planner_prompt q (make_sources hits) layout ic)
             (make_sources hits) = Inr plan" by blast
  define title where "title = (if plan_title plan \<noteq> [] then plan_title plan else lit ''Article'')"
  define art where "art = linkify_citations
                    (sanitize_html C
                       (render_article plan (make_citations C (make_sources hits)) bc ic
                          (fst (select_images C E q hits s))))
                    (make_citations C (make_sources hits))"
  define s2 where "s2 = log_event CoGenerate (snd (select_images C E q hits s))"
  obtain r t where pp: "persist_page C E ck title art bc pr tr base s2 = (r, t)"
    by (cases "persist_page C E ck title art bc pr tr base s2")
  from full_synthesis_eq[OF p, of bc pr base tr ck s] f pp
  have x: "s' = t"
    unfolding title_def art_def s2_def by simp
  have pg: "PAGES s2 = PAGES s" and ac: "ANSWER_CACHE s2 = ANSWER_CACHE s"
    by (simp_all add: s2_def log_event_frame select_images_frame)
  show "\<And>k. k \<noteq> token_urlsafe E \<Longrightarrow> PAGES s' k = PAGES (cleanup_pages (t_cleanup_pages E) s) k"
    using persist_page_frame(1)[OF pp] x cleanup_pages_cong[OF pg] by simp
  show "\<And>k. k \<noteq> ck \<Longrightarrow> ANSWER_CACHE s' k = ANSWER_CACHE s k"
    using persist_page_frame(2)[OF pp] x ac by simp
qed

lemma compose_miss_frame:
  assumes m: "memo_lookup (cleanup_answers (t_answers E) s0) (cache_key C q layout ic bc pr) = None"
    and c: "compose_answer_page C E q layout ic bc pr base s0 = (x, s')"
  shows "\<And>k. k \<noteq> token_urlsafe E \<Longrightarrow> PAGES s' k = PAGES (cleanup_pages (t_cleanup_pages E) s0) k"
    and "\<And>k. k \<noteq> cache_key C q layout ic bc pr \<Longrightarrow>
           ANSWER_CACHE s' k = ANSWER_CACHE (cleanup_answers (t_answers E) s0) k"
proof -
  define s where "s = cleanup_answers (t_answers E) s0"
  define ck where "ck = cache_key C q layout ic bc pr"
  define tr where "tr = trace_id_for C q"
  define doc_hits where "doc_hits = fst (search_docs C E q FINAL_DOCS s)"
  define s1 where "s1 = snd (search_docs C E q FINAL_DOCS s)"
  have pg1: "PAGES s1 = PAGES s0" and ac1: "ANSWER_CACHE s1 = ANSWER_CACHE s"
    by (simp_all add: s1_def s_def search_docs_frame cleanup_answers_frame)
  have pg2: "PAGES (log_event CoRerank s1) = PAGES s0"
    and ac2: "ANSWER_CACHE (log_event CoRerank s1) = ANSWER_CACHE s"
    by (simp_all add: log_event_frame pg1 ac1)
  have cm: "(x, s') =
     (if doc_hits = [] then fallback_page C E no_sources_plan ck bc pr tr base s1
      else if top_score_of (rerank_probe E q (map text_chunk doc_hits) 1) < RERANK_THRESHOLD
      then fallback_page C E low_confidence_plan ck bc pr tr base (log_event CoRerank s1)
      else full_synthesis C E q layout ic bc pr base tr ck doc_hits (log_event CoRerank s1))"
    using compose_miss[OF m, of base] c
    by (simp only: Let_def s_def ck_def tr_def doc_hits_def s1_def)
  consider (a) "doc_hits = []"
    | (b) "doc_hits \<noteq> []" "top_score_of (rerank_probe E q (map text_chunk doc_hits) 1) < RERANK_THRESHOLD"
    | (c) "doc_hits \<noteq> []" "\<not> top_score_of (rerank_probe E q (map text_chunk doc_hits) 1) < RERANK_THRESHOLD"
    by blast
  then have "(\<forall>k. k \<noteq> token_urlsafe E \<longrightarrow> PAGES s' k = PAGES (cleanup_pages (t_cleanup_pages E) s0) k) \<and>
             (\<forall>k. k \<noteq> ck \<longrightarrow> ANSWER_CACHE s' k = ANSWER_CACHE s k)"
  proof cases
    case a
    with cm have "fallback_page C E no_sources_plan ck bc pr tr base s1 = (x, s')" by simp
    from fallback_page_frame[OF this] show ?thesis
      using cleanup_pages_cong[OF pg1] ac1 by simp
  next
    case b
    with cm have "fallback_page C E low_confidence_plan ck bc pr tr base (log_event CoRerank s1) = (x, s')"
      by simp
    from fallback_page_frame[OF this] show ?thesis
      using cleanup_pages_cong[OF pg2] ac2 by simp
  next
    case c2: c
    with cm have "full_synthesis C E q layout ic bc pr base tr ck doc_hits (log_event CoRerank s1) = (x, s')"
      by simp
    from full_synthesis_frame[OF c2(1) this] show ?thesis
      using cleanup_pages_cong[OF pg2] ac2 by simp
  qed
  then show "\<And>k. k \<noteq> token_urlsafe E \<Longrightarrow> PAGES s' k = PAGES (cleanup_pages (t_cleanup_pages E) s0) k"
    and "\<And>k. k \<noteq> cache_key C q layout ic bc pr \<Longrightarrow>
           ANSWER_CACHE s' k = ANSWER_CACHE (cleanup_answers (t_answers E) s0) k"
    unfolding ck_def s_def by blast+
qed

lemma view_download_frame:
  "ANSWER_CACHE (snd (view_page now pid s)) = ANSWER_CACHE s"
  "ANSWER_CACHE (snd (download_page C now pid s)) = ANSWER_CACHE s"
  "PAGES (snd (view_page now pid s)) = PAGES (cleanup_pages now s)"
  "PAGES (snd (download_page C now pid s)) = PAGES (cleanup_pages now s)"
  by (simp_all add: view_page_def download_page_def Let_def cleanup_pages_frame split: option.splits)

lemma step_page_back:
  assumes ok: "undisturbed T pid op" and alive: "PAGES (step C s op) pid = Some p"
  shows "PAGES s pid = Some p"
proof (cases op)
  case (Compose E q layout ic bc pr base)
  let ?ck = "cache_key C q layout ic bc pr"
  let ?s = "cleanup_answers (t_answers E) s"
  from ok Compose have tk: "pid \<noteq> token_urlsafe E" by auto
  obtain x s' where c: "compose_answer_page C E q layout ic bc pr base s = (x, s')"
    by (cases "compose_answer_page C E q layout ic bc pr base s")
  with alive Compose have a: "PAGES s' pid = Some p" by simp
  show ?thesis
  proof (cases "memo_lookup ?s ?ck")
    case None
    from compose_miss_frame(1)[OF None c tk] a
    have "PAGES (cleanup_pages (t_cleanup_pages E) s) pid = Some p" by simp
    then show ?thesis by (rule cleanup_pages_sub)
  next
    case (Some hit)
    obtain i t where "hit = (i, t)" by (cases hit)
    with Some compose_hit[of E s C q layout ic bc pr i t base] c have "s' = ?s" by simp
    with a show ?thesis by (simp add: cleanup_answers_frame)
  qed
next
  case (View now v)
  with alive have "PAGES (cleanup_pages now s) pid = Some p" by (simp add: view_download_frame)
  then show ?thesis by (rule cleanup_pages_sub)
next
  case (Download now v)
  with alive have "PAGES (cleanup_pages now s) pid = Some p" by (simp add: view_download_frame)
  then show ?thesis by (rule cleanup_pages_sub)
qed

lemma step_keeps_entry:
  assumes e: "ANSWER_CACHE s ck = Some e" and pid: "page_id e = pid"
    and ttl: "T - answer_ts e \<le> ANSWER_TTL_SEC"
    and ok: "undisturbed T pid op" and alive: "PAGES (step C s op) pid = Some p"
  shows "ANSWER_CACHE (step C s op) ck = Some e"
proof (cases op)
  case (Compose E q layout ic bc pr base)
  let ?ck = "cache_key C q layout ic bc pr"
  let ?s = "cleanup_answers (t_answers E) s"
  from ok Compose have tk: "pid \<noteq> token_urlsafe E" and t: "t_answers E \<le> T" by auto
  from t ttl have "\<not> t_answers E - answer_ts e > ANSWER_TTL_SEC" by linarith
  with e have e': "ANSWER_CACHE ?s ck = Some e" by (simp add: cleanup_answers_def)
  obtain x s' where c: "compose_answer_page C E q layout ic bc pr base s = (x, s')"
    by (cases "compose_answer_page C E q layout ic bc pr base s")
  from step_page_back[OF ok alive] have pg: "PAGES s pid = Some p" .
  show ?thesis
  proof (cases "memo_lookup ?s ?ck")
    case None
    have "ck \<noteq> ?ck"
    proof
      assume "ck = ?ck"
      with None e' pid pg show False
        by (simp add: memo_lookup_def cleanup_answers_frame)
    qed
    from compose_miss_frame(2)[OF None c this] e' c Compose show ?thesis by simp
  next
    case (Some hit)
    obtain i t where "hit = (i, t)" by (cases hit)
    with Some compose_hit[of E s C q layout ic bc pr i t base] c have "s' = ?s" by simp
    with e' c Compose show ?thesis by simp
  qed
next
  case (View now v)
  with e show ?thesis by (simp add: view_download_frame)
next
  case (Download now v)
  with e show ?thesis by (simp add: view_download_frame)
qed

lemma run_Cons: "run C (op # ops) s = run C ops (step C s op)"
  by (simp add: run_def)

lemma run_page_back:
  "list_all (undisturbed T pid) ops \<Longrightarrow> PAGES (run C ops s) pid = Some p \<Longrightarrow> PAGES s pid = Some p"
proof (induction ops arbitrary: s)
  case Nil
  then show ?case by (simp add: run_def)
next
  case (Cons op ops)
  from Cons.prems have "PAGES (step C s op) pid = Some p"
    using Cons.IH[of "step C s op"] by (simp add: run_Cons)
  moreover from Cons.prems(1) have "undisturbed T pid op" by simp
  ultimately show ?case by (rule step_page_back[rotated])
qed

lemma run_keeps_entry:
  assumes "ANSWER_CACHE s ck = Some e" and "page_id e = pid"
    and "T - answer_ts e \<le> ANSWER_TTL_SEC"
    and "list_all (undisturbed T pid) ops" and "PAGES (run C ops s) pid = Some p"
  shows "ANSWER_CACHE (run C ops s) ck = Some e"
  using assms
proof (induction ops arbitrary: s)
  case Nil
  then show ?case by (simp add: run_def)
next
  case (Cons op ops)
  from Cons.prems(4) have ok: "undisturbed T pid op" and oks: "list_all (undisturbed T pid) ops"
    by simp_all
  from Cons.prems(5) have fin: "PAGES (run C ops (step C s op)) pid = Some p"
    by (simp add: run_Cons)
  from run_page_back[OF oks fin] have mid: "PAGES (step C s op) pid = Some p" .
  from step_keeps_entry[OF Cons.prems(1,2,3) ok mid]
  have "ANSWER_CACHE (step C s op) ck = Some e" .
  from Cons.IH[OF this Cons.prems(2,3) oks fin] show ?case by (simp add: run_Cons)
qed





lemma cleanup_pages_keeps:
  "PAGES s k = Some p \<Longrightarrow> \<not> now - page_ts p > PAGES_TTL_SEC \<Longrightarrow> PAGES (cleanup_pages now s) k = Some p"
  by (simp add: cleanup_pages_def)

lemma demo_between_page:
  assumes "PAGES s (lit ''Zx3kQ9w_aB-7Lm'') = Some p" and "page_ts p = 1000"
  shows "PAGES (run demo_caps demo_between s) (lit ''Zx3kQ9w_aB-7Lm'') = Some p"
proof -
  have 1: "\<not> 1500 - page_ts p > PAGES_TTL_SEC" "\<not> 1600 - page_ts p > PAGES_TTL_SEC"
    using assms(2) by (simp_all add: PAGES_TTL_SEC_def)
  have a: "PAGES (snd (view_page 1500 (lit ''Zx3kQ9w_aB-7Lm'') s)) (lit ''Zx3kQ9w_aB-7Lm'') = Some p"
    using cleanup_pages_keeps[OF assms(1) 1(1)] by (simp add: view_download_frame)
  have "PAGES (snd (download_page demo_caps 1600 (lit ''Zx3kQ9w_aB-7Lm'')
                 (snd (view_page 1500 (lit ''Zx3kQ9w_aB-7Lm'') s)))) (lit ''Zx3kQ9w_aB-7Lm'') = Some p"
    using cleanup_pages_keeps[OF a 1(2)] by (simp add: view_download_frame)
  then show ?thesis by (simp add: run_def demo_between_def)
qed



section \<open>Memoization\<close>

text \<open>
  C1. A first call stores a page: its memo look-up misses and it returns the result
  \<open>r1\<close>. Any sequence of compose, view and download requests follows, in which no compose
  request is later than the second call or draws the id of \<open>r1\<close> again. A second call has
  a question with the same normalized text and the same layout, citation flag, brand
  class and primary colour; when it starts the page of \<open>r1\<close> is still in the store, and
  its time is not more than the answer TTL after the first call recorded its memo entry.
  Then the second call returns the id of \<open>r1\<close> with the title of the stored page, and
  does nothing but the sweep of the answer cache: no stage of the pipeline is entered
  (the log is unchanged), and the content caches and the page store are as before.
\<close>

theorem memo_idempotence:
  assumes first: "compose_answer_page C E1 q1 layout ic bc pr base1 s0 = (Inr r1, s1)"
    and stored: "memo_lookup (cleanup_answers (t_answers E1) s0) (cache_key C q1 layout ic bc pr) = None"
    and same: "normalize_question C q2 = normalize_question C q1"
    and between: "list_all (undisturbed (t_answers E2) (res_id r1)) ops"
    and alive: "PAGES (run C ops s1) (res_id r1) = Some p"
    and ttl: "t_answers E2 - t_memo E1 \<le> ANSWER_TTL_SEC"
  shows "compose_answer_page C E2 q2 layout ic bc pr base2 (run C ops s1) =
           (Inr \<lparr>res_id = res_id r1, res_title = page_title p, res_trace_id = trace_id_for C q2\<rparr>,
            cleanup_answers (t_answers E2) (run C ops s1)) \<and>
         LOG (cleanup_answers (t_answers E2) (run C ops s1)) = LOG (run C ops s1) \<and>
         POSTS_CACHE (cleanup_answers (t_answers E2) (run C ops s1)) = POSTS_CACHE (run C ops s1) \<and>
         PAGES_CACHE (cleanup_answers (t_answers E2) (run C ops s1)) = PAGES_CACHE (run C ops s1) \<and>
         MEDIA_CACHE (cleanup_answers (t_answers E2) (run C ops s1)) = MEDIA_CACHE (run C ops s1) \<and>
         PAGES (cleanup_answers (t_answers E2) (run C ops s1)) = PAGES (run C ops s1)"
proof -
  let ?ck = "cache_key C q1 layout ic bc pr"
  let ?e = "\<lparr>page_id = token_urlsafe E1, answer_ts = t_memo E1\<rparr>"
  let ?s2 = "run C ops s1"
  from compose_miss_result[OF stored first] obtain title where
    r1: "r1 = \<lparr>res_id = token_urlsafe E1, res_title = title, res_trace_id = trace_id_for C q1\<rparr>"
    and e: "ANSWER_CACHE s1 ?ck = Some ?e"
    by auto
  have pe: "page_id ?e = res_id r1" using r1 by simp
  have te: "t_answers E2 - answer_ts ?e \<le> ANSWER_TTL_SEC" using ttl by simp
  from run_keeps_entry[OF e pe te between alive]
  have e2: "ANSWER_CACHE ?s2 ?ck = Some ?e" .
  from ttl have nt: "\<not> t_answers E2 - answer_ts ?e > ANSWER_TTL_SEC" by simp
  from alive r1 have pg: "PAGES ?s2 (page_id ?e) = Some p" by simp
  have "memo_lookup (cleanup_answers (t_answers E2) ?s2) ?ck = Some (token_urlsafe E1, page_title p)"
    using memo_lookup_live[OF e2 nt pg] by simp
  then have "memo_lookup (cleanup_answers (t_answers E2) ?s2) (cache_key C q2 layout ic bc pr) =
             Some (res_id r1, page_title p)"
    using cache_key_norm[OF same] r1 by simp
  from compose_hit[OF this] show ?thesis
    by (simp add: cleanup_answers_frame)
qed

theorem memo_idempotence_witness:
  "memo_lookup (cleanup_answers (t_answers demo_env) demo_state)
     (cache_key demo_caps demo_question demo_layout True demo_brand demo_primary) = None \<and>
   normalize_question demo_caps demo_question2 = normalize_question demo_caps demo_question \<and>
   list_all (undisturbed (t_answers demo_env_later) (lit ''Zx3kQ9w_aB-7Lm'')) demo_between \<and>
   t_answers demo_env_later - t_memo demo_env \<le> ANSWER_TTL_SEC \<and>
   fst (compose_answer_page demo_caps demo_env demo_question demo_layout True demo_brand demo_primary
          demo_base demo_state) =
     Inr \<lparr>res_id = lit ''Zx3kQ9w_aB-7Lm'', res_title = lit ''About'',
          res_trace_id = take 16 demo_question\<rparr> \<and>
   fst (compose_answer_page demo_caps demo_env_later demo_question2 demo_layout True demo_brand
          demo_primary demo_base
          (run demo_caps demo_between
             (snd (compose_answer_page demo_caps demo_env demo_question demo_layout True demo_brand
                     demo_primary demo_base demo_state)))) =
     Inr \<lparr>res_id = lit ''Zx3kQ9w_aB-7Lm'', res_title = lit ''About'',
          res_trace_id = take 16 demo_question2\<rparr>"
proof -
  let ?s1 = "snd (compose_answer_page demo_caps demo_env demo_question demo_layout True demo_brand
                  demo_primary demo_base demo_state)"
  let ?r1 = "\<lparr>res_id = lit ''Zx3kQ9w_aB-7Lm'', res_title = lit ''About'',
                 res_trace_id = take 16 demo_question\<rparr>"
  have ttl: "t_answers demo_env_later - t_memo demo_env \<le> ANSWER_TTL_SEC"
    by (simp add: demo_env_later_def demo_env_def ANSWER_TTL_SEC_def)
  have q: "list_all (undisturbed (t_answers demo_env_later) (lit ''Zx3kQ9w_aB-7Lm'')) demo_between"
    by (simp add: demo_between_def)
  from demo_page obtain p where
    p: "PAGES ?s1 (lit ''Zx3kQ9w_aB-7Lm'') = Some p" and t: "page_title p = lit ''About''"
    and ts: "page_ts p = 1000"
    by auto
  have alive: "PAGES (run demo_caps demo_between ?s1) (res_id ?r1) = Some p"
    using demo_between_page[OF p ts] by simp
  have q': "list_all (undisturbed (t_answers demo_env_later) (res_id ?r1)) demo_between"
    using q by simp
  from memo_idempotence [OF demo_pair demo_miss demo_norm q' alive ttl, of demo_base]
  have "fst (compose_answer_page demo_caps demo_env_later demo_question2 demo_layout True demo_brand
          demo_primary demo_base (run demo_caps demo_between ?s1)) =
        Inr \<lparr>res_id = lit ''Zx3kQ9w_aB-7Lm'', res_title = lit ''About'',
             res_trace_id = take 16 demo_question2\<rparr>"
    using t by (simp add: trace_id_for_def demo_caps_def)
  with demo_miss demo_norm q ttl demo_compose show ?thesis by blast
qed

section \<open>Fallback pages\<close>

lemma titles_differ: "plan_title low_confidence_plan \<noteq> plan_title no_sources_plan"
  by (simp add: low_confidence_plan_def no_sources_plan_def lit_def)

lemma no_sources_article:
  "render_article no_sources_plan [] bc False [] =
     article_header no_sources_plan bc @
     concat (section_parts bc
               \<lparr>sec_id = lit ''s1'', heading = lit ''Please try again'',
                paragraphs = [lit ''We couldn'' @ [39] @
                  lit ''t find any relevant sources from the site. Try rephrasing your question.''],
                bullets = []\<rparr>) @
     lit ''</article>''"
  by (simp add: render_article_def no_sources_plan_def toc_parts_def sources_parts_def)

text \<open>
  C5. A call whose memo look-up misses: when the search returns no source, the call
  returns and stores a page titled \<^verbatim>\<open>No sources available\<close>, whose article is the header,
  the one section of the fixed plan and the closing tag, rendered with the citations
  switched off, so that the part that lists the sources is empty. When the search returns
  sources and the score of the confidence probe is below \<open>RERANK_THRESHOLD\<close>, the call
  returns and stores a page with the fixed low-confidence title. The two titles differ.
\<close>

theorem fallback_pages:
  assumes miss: "memo_lookup (cleanup_answers (t_answers E) s0) (cache_key C q layout ic bc pr) = None"
    and hits: "fst (search_docs C E q FINAL_DOCS (cleanup_answers (t_answers E) s0)) = doc_hits"
    and c: "compose_answer_page C E q layout ic bc pr base s0 = (x, s')"
  shows "(doc_hits = [] \<longrightarrow>
            x = Inr \<lparr>res_id = token_urlsafe E, res_title = lit ''No sources available'',
                     res_trace_id = trace_id_for C q\<rparr> \<and>
            PAGES s' (token_urlsafe E) =
              Some \<lparr>page_title = lit ''No sources available'',
                    html = build_fullpage_html C (lit ''No sources available'')
                             (sanitize_html C (render_article no_sources_plan [] bc False []))
                             bc pr (trace_id_for C q) (token_urlsafe E) base,
                    page_ts = t_save E\<rparr> \<and>
            sources_parts ([] :: citation list) bc False = [] \<and>
            render_article no_sources_plan [] bc False [] =
              article_header no_sources_plan bc @
              concat (section_parts bc
                        \<lparr>sec_id = lit ''s1'', heading = lit ''Please try again'',
                         paragraphs = [lit ''We couldn'' @ [39] @
                           lit ''t find any relevant sources from the site. Try rephrasing your question.''],
                         bullets = []\<rparr>) @
              lit ''</article>'') \<and>
         (doc_hits \<noteq> [] \<and>
          top_score_of (rerank_probe E q (map text_chunk doc_hits) 1) < RERANK_THRESHOLD \<longrightarrow>
            x = Inr \<lparr>res_id = token_urlsafe E,
                     res_title = lit ''We couldn'' @ [8217] @ lit ''t find a confident answer'',
                     res_trace_id = trace_id_for C q\<rparr> \<and>
            PAGES s' (token_urlsafe E) =
              Some \<lparr>page_title = lit ''We couldn'' @ [8217] @ lit ''t find a confident answer'',
                    html = build_fullpage_html C
                             (lit ''We couldn'' @ [8217] @ lit ''t find a confident answer'')
                             (sanitize_html C (render_article low_confidence_plan [] bc False []))
                             bc pr (trace_id_for C q) (token_urlsafe E) base,
                    page_ts = t_save E\<rparr>) \<and>
         lit ''We couldn'' @ [8217] @ lit ''t find a confident answer'' \<noteq> lit ''No sources available''"
proof (intro conjI impI)
  assume e: "doc_hits = []"
  with compose_miss[OF miss, of base] hits c
  have f: "fallback_page C E no_sources_plan (cache_key C q layout ic bc pr) bc pr (trace_id_for C q) base
          (snd (search_docs C E q FINAL_DOCS (cleanup_answers (t_answers E) s0))) = (x, s')"
    by (simp add: Let_def)
  have t: "plan_title no_sources_plan = lit ''No sources available''"
    by (simp add: no_sources_plan_def)
  from fallback_page_result[OF f]
  show "x = Inr \<lparr>res_id = token_urlsafe E, res_title = lit ''No sources available'',
                     res_trace_id = trace_id_for C q\<rparr>"
    and "PAGES s' (token_urlsafe E) =
              Some \<lparr>page_title = lit ''No sources available'',
                    html = build_fullpage_html C (lit ''No sources available'')
                             (sanitize_html C (render_article no_sources_plan [] bc False []))
                             bc pr (trace_id_for C q) (token_urlsafe E) base,
                    page_ts = t_save E\<rparr>"
    unfolding t by simp_all
  show "sources_parts ([] :: citation list) bc False = []" by (simp add: sources_parts_def)
  show "render_article no_sources_plan [] bc False [] =
              article_header no_sources_plan bc @
              concat (section_parts bc
                        \<lparr>sec_id = lit ''s1'', heading = lit ''Please try again'',
                         paragraphs = [lit ''We couldn'' @ [39] @
                           lit ''t find any relevant sources from the site. Try rephrasing your question.''],
                         bullets = []\<rparr>) @
              lit ''</article>''"
    by (rule no_sources_article)
next
  assume a: "doc_hits \<noteq> [] \<and>
          top_score_of (rerank_probe E q (map text_chunk doc_hits) 1) < RERANK_THRESHOLD"
  with compose_miss[OF miss, of base] hits c
  have f: "fallback_page C E low_confidence_plan (cache_key C q layout ic bc pr) bc pr (trace_id_for C q) base
          (log_event CoRerank (snd (search_docs C E q FINAL_DOCS (cleanup_answers (t_answers E) s0)))) = (x, s')"
    by (simp add: Let_def)
  have t: "plan_title low_confidence_plan = lit ''We couldn'' @ [8217] @ lit ''t find a confident answer''"
    by (simp add: low_confidence_plan_def)
  from fallback_page_result[OF f]
  show "x = Inr \<lparr>res_id = token_urlsafe E,
                     res_title = lit ''We couldn'' @ [8217] @ lit ''t find a confident answer'',
                     res_trace_id = trace_id_for C q\<rparr>"
    and "PAGES s' (token_urlsafe E) =
              Some \<lparr>page_title = lit ''We couldn'' @ [8217] @ lit ''t find a confident answer'',
                    html = build_fullpage_html C
                             (lit ''We couldn'' @ [8217] @ lit ''t find a confident answer'')
                             (sanitize_html C (render_article low_confidence_plan [] bc False []))
                             bc pr (trace_id_for C q) (token_urlsafe E) base,
                    page_ts = t_save E\<rparr>"
    unfolding t by simp_all
next
  show "lit ''We couldn'' @ [8217] @ lit ''t find a confident answer'' \<noteq> lit ''No sources available''"
    by (simp add: lit_def)
qed

theorem fallback_pages_witness:
  "memo_lookup (cleanup_answers (t_answers demo_env) initial_state)
     (cache_key demo_caps demo_question demo_layout True demo_brand demo_primary) = None \<and>
   fst (search_docs demo_caps demo_env demo_question FINAL_DOCS
          (cleanup_answers (t_answers demo_env) initial_state)) = [] \<and>
   fst (compose_answer_page demo_caps demo_env demo_question demo_layout True demo_brand demo_primary
          demo_base initial_state) =
     Inr \<lparr>res_id = token_urlsafe demo_env, res_title = lit ''No sources available'',
          res_trace_id = trace_id_for demo_caps demo_question\<rparr> \<and>
   memo_lookup (cleanup_answers (t_answers demo_env_low) demo_state)
     (cache_key demo_caps demo_question demo_layout True demo_brand demo_primary) = None \<and>
   fst (search_docs demo_caps demo_env_low demo_question FINAL_DOCS
          (cleanup_answers (t_answers demo_env_low) demo_state)) = [old_doc] \<and>
   [old_doc] \<noteq> [] \<and>
   top_score_of (rerank_probe demo_env_low demo_question (map text_chunk [old_doc]) 1) < RERANK_THRESHOLD \<and>
   fst (compose_answer_page demo_caps demo_env_low demo_question demo_layout True demo_brand
          demo_primary demo_base demo_state) =
     Inr \<lparr>res_id = token_urlsafe demo_env_low,
          res_title = lit ''We couldn'' @ [8217] @ lit ''t find a confident answer'',
          res_trace_id = trace_id_for demo_caps demo_question\<rparr>"
proof -
  let ?ck = "cache_key demo_caps demo_question demo_layout True demo_brand demo_primary"
  have m1: "memo_lookup (cleanup_answers (t_answers demo_env) initial_state) ?ck = None"
    by (rule initial_miss)
  have h1: "fst (search_docs demo_caps demo_env demo_question FINAL_DOCS
          (cleanup_answers (t_answers demo_env) initial_state)) = []"
    by (rule initial_no_docs)
  have c1: "compose_answer_page demo_caps demo_env demo_question demo_layout True demo_brand demo_primary
          demo_base initial_state =
        (fst (compose_answer_page demo_caps demo_env demo_question demo_layout True demo_brand
                demo_primary demo_base initial_state),
         snd (compose_answer_page demo_caps demo_env demo_question demo_layout True demo_brand
                demo_primary demo_base initial_state))"
    by simp
  have m2: "memo_lookup (cleanup_answers (t_answers demo_env_low) demo_state) ?ck = None"
    by (simp add: demo_cleanup) (simp add: memo_lookup_def demo_state_def initial_state_def)
  have h2: "fst (search_docs demo_caps demo_env_low demo_question FINAL_DOCS
          (cleanup_answers (t_answers demo_env_low) demo_state)) = [old_doc]"
    by (simp add: env_low_search demo_cleanup demo_hits)
  have p2: "top_score_of (rerank_probe demo_env_low demo_question (map text_chunk [old_doc]) 1)
              < RERANK_THRESHOLD"
    by (simp add: demo_env_low_def low_probe_def top_score_of_def RERANK_THRESHOLD_def)
  have c2: "compose_answer_page demo_caps demo_env_low demo_question demo_layout True demo_brand
          demo_primary demo_base demo_state =
        (fst (compose_answer_page demo_caps demo_env_low demo_question demo_layout True demo_brand
                demo_primary demo_base demo_state),
         snd (compose_answer_page demo_caps demo_env_low demo_question demo_layout True demo_brand
                demo_primary demo_base demo_state))"
    by simp
  from fallback_pages [OF m1 h1 c1]
  have r1: "fst (compose_answer_page demo_caps demo_env demo_question demo_layout True demo_brand demo_primary
          demo_base initial_state) =
     Inr \<lparr>res_id = token_urlsafe demo_env, res_title = lit ''No sources available'',
          res_trace_id = trace_id_for demo_caps demo_question\<rparr>"
    by blast
  from fallback_pages [OF m2 h2 c2] p2
  have r2: "fst (compose_answer_page demo_caps demo_env_low demo_question demo_layout True demo_brand
          demo_primary demo_base demo_state) =
     Inr \<lparr>res_id = token_urlsafe demo_env_low,
          res_title = lit ''We couldn'' @ [8217] @ lit ''t find a confident answer'',
          res_trace_id = trace_id_for demo_caps demo_question\<rparr>"
    by blast
  from m1 h1 r1 m2 h2 p2 r2 show ?thesis by blast
qed

section \<open>Planner output\<close>








section \<open>Two-phase persistence\<close>






section \<open>Page expiry\<close>




section \<open>Confidence probe\<close>




end
